theory Spec2Isabelle
  imports Main
begin


section \<open>Python strings\<close>

text \<open>
  A Python \<^verbatim>\<open>str\<close> is a sequence of Unicode code points, so a text is a list of
  code points (naturals) and \<^verbatim>\<open>len\<close> is \<open>length\<close>. \<open>ch\<close> writes a code point as an
  Isabelle character literal, \<open>py\<close> a whole ASCII literal.
\<close>

type_synonym pychar = nat
type_synonym pystr = "nat list"

abbreviation ch :: "char \<Rightarrow> pychar" where
  "ch c \<equiv> of_char c"

abbreviation py :: "string \<Rightarrow> pystr" where
  "py s \<equiv> map of_char s"

subsection \<open>Character classes\<close>

text \<open>
  \<^verbatim>\<open>str.isspace\<close>, \<^verbatim>\<open>str.isdigit\<close> and \<^verbatim>\<open>str.isalpha\<close> are lookups in the Unicode
  character database; the tables below are those of Unicode 14.0 (CPython 3.11), as
  inclusive code point ranges. The ASCII ranges stand first, on their own.
\<close>

fun in_ranges :: "nat \<Rightarrow> (nat \<times> nat) list \<Rightarrow> bool" where
  "in_ranges c [] = False"
| "in_ranges c ((a, b) # rs) = ((a \<le> c \<and> c \<le> b) \<or> in_ranges c rs)"

definition isspace :: "pychar \<Rightarrow> bool" where
  "isspace c = in_ranges c
     [(9, 13), (28, 32), (133, 133), (160, 160), (5760, 5760), (8192, 8202),
      (8232, 8233), (8239, 8239), (8287, 8287), (12288, 12288)]"

definition digit_ranges_hi :: "(nat \<times> nat) list" where
  "digit_ranges_hi = [
    (178, 179), (185, 185), (1632, 1641), (1776, 1785), (1984, 1993), (2406, 2415),
    (2534, 2543), (2662, 2671), (2790, 2799), (2918, 2927), (3046, 3055), (3174, 3183),
    (3302, 3311), (3430, 3439), (3558, 3567), (3664, 3673), (3792, 3801), (3872, 3881),
    (4160, 4169), (4240, 4249), (4969, 4977), (6112, 6121), (6160, 6169), (6470, 6479),
    (6608, 6618), (6784, 6793), (6800, 6809), (6992, 7001), (7088, 7097), (7232, 7241),
    (7248, 7257), (8304, 8304), (8308, 8313), (8320, 8329), (9312, 9320), (9332, 9340),
    (9352, 9360), (9450, 9450), (9461, 9469), (9471, 9471), (10102, 10110), (10112, 10120),
    (10122, 10130), (42528, 42537), (43216, 43225), (43264, 43273), (43472, 43481), (43504, 43513),
    (43600, 43609), (44016, 44025), (65296, 65305), (66720, 66729), (68160, 68163), (68912, 68921),
    (69216, 69224), (69714, 69722), (69734, 69743), (69872, 69881), (69942, 69951), (70096, 70105),
    (70384, 70393), (70736, 70745), (70864, 70873), (71248, 71257), (71360, 71369), (71472, 71481),
    (71904, 71913), (72016, 72025), (72784, 72793), (73040, 73049), (73120, 73129), (92768, 92777),
    (92864, 92873), (93008, 93017), (120782, 120831), (123200, 123209), (123632, 123641), (125264, 125273),
    (127232, 127242), (130032, 130041)]"

definition isdigit :: "pychar \<Rightarrow> bool" where
  "isdigit c = ((48 \<le> c \<and> c \<le> 57) \<or> in_ranges c digit_ranges_hi)"

definition alpha_ranges_hi :: "(nat \<times> nat) list" where
  "alpha_ranges_hi = [
    (170, 170), (181, 181), (186, 186), (192, 214), (216, 246), (248, 705),
    (710, 721), (736, 740), (748, 748), (750, 750), (880, 884), (886, 887),
    (890, 893), (895, 895), (902, 902), (904, 906), (908, 908), (910, 929),
    (931, 1013), (1015, 1153), (1162, 1327), (1329, 1366), (1369, 1369), (1376, 1416),
    (1488, 1514), (1519, 1522), (1568, 1610), (1646, 1647), (1649, 1747), (1749, 1749),
    (1765, 1766), (1774, 1775), (1786, 1788), (1791, 1791), (1808, 1808), (1810, 1839),
    (1869, 1957), (1969, 1969), (1994, 2026), (2036, 2037), (2042, 2042), (2048, 2069),
    (2074, 2074), (2084, 2084), (2088, 2088), (2112, 2136), (2144, 2154), (2160, 2183),
    (2185, 2190), (2208, 2249), (2308, 2361), (2365, 2365), (2384, 2384), (2392, 2401),
    (2417, 2432), (2437, 2444), (2447, 2448), (2451, 2472), (2474, 2480), (2482, 2482),
    (2486, 2489), (2493, 2493), (2510, 2510), (2524, 2525), (2527, 2529), (2544, 2545),
    (2556, 2556), (2565, 2570), (2575, 2576), (2579, 2600), (2602, 2608), (2610, 2611),
    (2613, 2614), (2616, 2617), (2649, 2652), (2654, 2654), (2674, 2676), (2693, 2701),
    (2703, 2705), (2707, 2728), (2730, 2736), (2738, 2739), (2741, 2745), (2749, 2749),
    (2768, 2768), (2784, 2785), (2809, 2809), (2821, 2828), (2831, 2832), (2835, 2856),
    (2858, 2864), (2866, 2867), (2869, 2873), (2877, 2877), (2908, 2909), (2911, 2913),
    (2929, 2929), (2947, 2947), (2949, 2954), (2958, 2960), (2962, 2965), (2969, 2970),
    (2972, 2972), (2974, 2975), (2979, 2980), (2984, 2986), (2990, 3001), (3024, 3024),
    (3077, 3084), (3086, 3088), (3090, 3112), (3114, 3129), (3133, 3133), (3160, 3162),
    (3165, 3165), (3168, 3169), (3200, 3200), (3205, 3212), (3214, 3216), (3218, 3240),
    (3242, 3251), (3253, 3257), (3261, 3261), (3293, 3294), (3296, 3297), (3313, 3314),
    (3332, 3340), (3342, 3344), (3346, 3386), (3389, 3389), (3406, 3406), (3412, 3414),
    (3423, 3425), (3450, 3455), (3461, 3478), (3482, 3505), (3507, 3515), (3517, 3517),
    (3520, 3526), (3585, 3632), (3634, 3635), (3648, 3654), (3713, 3714), (3716, 3716),
    (3718, 3722), (3724, 3747), (3749, 3749), (3751, 3760), (3762, 3763), (3773, 3773),
    (3776, 3780), (3782, 3782), (3804, 3807), (3840, 3840), (3904, 3911), (3913, 3948),
    (3976, 3980), (4096, 4138), (4159, 4159), (4176, 4181), (4186, 4189), (4193, 4193),
    (4197, 4198), (4206, 4208), (4213, 4225), (4238, 4238), (4256, 4293), (4295, 4295),
    (4301, 4301), (4304, 4346), (4348, 4680), (4682, 4685), (4688, 4694), (4696, 4696),
    (4698, 4701), (4704, 4744), (4746, 4749), (4752, 4784), (4786, 4789), (4792, 4798),
    (4800, 4800), (4802, 4805), (4808, 4822), (4824, 4880), (4882, 4885), (4888, 4954),
    (4992, 5007), (5024, 5109), (5112, 5117), (5121, 5740), (5743, 5759), (5761, 5786),
    (5792, 5866), (5873, 5880), (5888, 5905), (5919, 5937), (5952, 5969), (5984, 5996),
    (5998, 6000), (6016, 6067), (6103, 6103), (6108, 6108), (6176, 6264), (6272, 6276),
    (6279, 6312), (6314, 6314), (6320, 6389), (6400, 6430), (6480, 6509), (6512, 6516),
    (6528, 6571), (6576, 6601), (6656, 6678), (6688, 6740), (6823, 6823), (6917, 6963),
    (6981, 6988), (7043, 7072), (7086, 7087), (7098, 7141), (7168, 7203), (7245, 7247),
    (7258, 7293), (7296, 7304), (7312, 7354), (7357, 7359), (7401, 7404), (7406, 7411),
    (7413, 7414), (7418, 7418), (7424, 7615), (7680, 7957), (7960, 7965), (7968, 8005),
    (8008, 8013), (8016, 8023), (8025, 8025), (8027, 8027), (8029, 8029), (8031, 8061),
    (8064, 8116), (8118, 8124), (8126, 8126), (8130, 8132), (8134, 8140), (8144, 8147),
    (8150, 8155), (8160, 8172), (8178, 8180), (8182, 8188), (8305, 8305), (8319, 8319),
    (8336, 8348), (8450, 8450), (8455, 8455), (8458, 8467), (8469, 8469), (8473, 8477),
    (8484, 8484), (8486, 8486), (8488, 8488), (8490, 8493), (8495, 8505), (8508, 8511),
    (8517, 8521), (8526, 8526), (8579, 8580), (11264, 11492), (11499, 11502), (11506, 11507),
    (11520, 11557), (11559, 11559), (11565, 11565), (11568, 11623), (11631, 11631), (11648, 11670),
    (11680, 11686), (11688, 11694), (11696, 11702), (11704, 11710), (11712, 11718), (11720, 11726),
    (11728, 11734), (11736, 11742), (11823, 11823), (12293, 12294), (12337, 12341), (12347, 12348),
    (12353, 12438), (12445, 12447), (12449, 12538), (12540, 12543), (12549, 12591), (12593, 12686),
    (12704, 12735), (12784, 12799), (13312, 19903), (19968, 42124), (42192, 42237), (42240, 42508),
    (42512, 42527), (42538, 42539), (42560, 42606), (42623, 42653), (42656, 42725), (42775, 42783),
    (42786, 42888), (42891, 42954), (42960, 42961), (42963, 42963), (42965, 42969), (42994, 43009),
    (43011, 43013), (43015, 43018), (43020, 43042), (43072, 43123), (43138, 43187), (43250, 43255),
    (43259, 43259), (43261, 43262), (43274, 43301), (43312, 43334), (43360, 43388), (43396, 43442),
    (43471, 43471), (43488, 43492), (43494, 43503), (43514, 43518), (43520, 43560), (43584, 43586),
    (43588, 43595), (43616, 43638), (43642, 43642), (43646, 43695), (43697, 43697), (43701, 43702),
    (43705, 43709), (43712, 43712), (43714, 43714), (43739, 43741), (43744, 43754), (43762, 43764),
    (43777, 43782), (43785, 43790), (43793, 43798), (43808, 43814), (43816, 43822), (43824, 43866),
    (43868, 43881), (43888, 44002), (44032, 55203), (55216, 55238), (55243, 55291), (63744, 64109),
    (64112, 64217), (64256, 64262), (64275, 64279), (64285, 64285), (64287, 64296), (64298, 64310),
    (64312, 64316), (64318, 64318), (64320, 64321), (64323, 64324), (64326, 64433), (64467, 64829),
    (64848, 64911), (64914, 64967), (65008, 65019), (65136, 65140), (65142, 65276), (65313, 65338),
    (65345, 65370), (65382, 65470), (65474, 65479), (65482, 65487), (65490, 65495), (65498, 65500),
    (65536, 65547), (65549, 65574), (65576, 65594), (65596, 65597), (65599, 65613), (65616, 65629),
    (65664, 65786), (66176, 66204), (66208, 66256), (66304, 66335), (66349, 66368), (66370, 66377),
    (66384, 66421), (66432, 66461), (66464, 66499), (66504, 66511), (66560, 66717), (66736, 66771),
    (66776, 66811), (66816, 66855), (66864, 66915), (66928, 66938), (66940, 66954), (66956, 66962),
    (66964, 66965), (66967, 66977), (66979, 66993), (66995, 67001), (67003, 67004), (67072, 67382),
    (67392, 67413), (67424, 67431), (67456, 67461), (67463, 67504), (67506, 67514), (67584, 67589),
    (67592, 67592), (67594, 67637), (67639, 67640), (67644, 67644), (67647, 67669), (67680, 67702),
    (67712, 67742), (67808, 67826), (67828, 67829), (67840, 67861), (67872, 67897), (67968, 68023),
    (68030, 68031), (68096, 68096), (68112, 68115), (68117, 68119), (68121, 68149), (68192, 68220),
    (68224, 68252), (68288, 68295), (68297, 68324), (68352, 68405), (68416, 68437), (68448, 68466),
    (68480, 68497), (68608, 68680), (68736, 68786), (68800, 68850), (68864, 68899), (69248, 69289),
    (69296, 69297), (69376, 69404), (69415, 69415), (69424, 69445), (69488, 69505), (69552, 69572),
    (69600, 69622), (69635, 69687), (69745, 69746), (69749, 69749), (69763, 69807), (69840, 69864),
    (69891, 69926), (69956, 69956), (69959, 69959), (69968, 70002), (70006, 70006), (70019, 70066),
    (70081, 70084), (70106, 70106), (70108, 70108), (70144, 70161), (70163, 70187), (70272, 70278),
    (70280, 70280), (70282, 70285), (70287, 70301), (70303, 70312), (70320, 70366), (70405, 70412),
    (70415, 70416), (70419, 70440), (70442, 70448), (70450, 70451), (70453, 70457), (70461, 70461),
    (70480, 70480), (70493, 70497), (70656, 70708), (70727, 70730), (70751, 70753), (70784, 70831),
    (70852, 70853), (70855, 70855), (71040, 71086), (71128, 71131), (71168, 71215), (71236, 71236),
    (71296, 71338), (71352, 71352), (71424, 71450), (71488, 71494), (71680, 71723), (71840, 71903),
    (71935, 71942), (71945, 71945), (71948, 71955), (71957, 71958), (71960, 71983), (71999, 71999),
    (72001, 72001), (72096, 72103), (72106, 72144), (72161, 72161), (72163, 72163), (72192, 72192),
    (72203, 72242), (72250, 72250), (72272, 72272), (72284, 72329), (72349, 72349), (72368, 72440),
    (72704, 72712), (72714, 72750), (72768, 72768), (72818, 72847), (72960, 72966), (72968, 72969),
    (72971, 73008), (73030, 73030), (73056, 73061), (73063, 73064), (73066, 73097), (73112, 73112),
    (73440, 73458), (73648, 73648), (73728, 74649), (74880, 75075), (77712, 77808), (77824, 78894),
    (82944, 83526), (92160, 92728), (92736, 92766), (92784, 92862), (92880, 92909), (92928, 92975),
    (92992, 92995), (93027, 93047), (93053, 93071), (93760, 93823), (93952, 94026), (94032, 94032),
    (94099, 94111), (94176, 94177), (94179, 94179), (94208, 100343), (100352, 101589), (101632, 101640),
    (110576, 110579), (110581, 110587), (110589, 110590), (110592, 110882), (110928, 110930), (110948, 110951),
    (110960, 111355), (113664, 113770), (113776, 113788), (113792, 113800), (113808, 113817), (119808, 119892),
    (119894, 119964), (119966, 119967), (119970, 119970), (119973, 119974), (119977, 119980), (119982, 119993),
    (119995, 119995), (119997, 120003), (120005, 120069), (120071, 120074), (120077, 120084), (120086, 120092),
    (120094, 120121), (120123, 120126), (120128, 120132), (120134, 120134), (120138, 120144), (120146, 120485),
    (120488, 120512), (120514, 120538), (120540, 120570), (120572, 120596), (120598, 120628), (120630, 120654),
    (120656, 120686), (120688, 120712), (120714, 120744), (120746, 120770), (120772, 120779), (122624, 122654),
    (123136, 123180), (123191, 123197), (123214, 123214), (123536, 123565), (123584, 123627), (124896, 124902),
    (124904, 124907), (124909, 124910), (124912, 124926), (124928, 125124), (125184, 125251), (125259, 125259),
    (126464, 126467), (126469, 126495), (126497, 126498), (126500, 126500), (126503, 126503), (126505, 126514),
    (126516, 126519), (126521, 126521), (126523, 126523), (126530, 126530), (126535, 126535), (126537, 126537),
    (126539, 126539), (126541, 126543), (126545, 126546), (126548, 126548), (126551, 126551), (126553, 126553),
    (126555, 126555), (126557, 126557), (126559, 126559), (126561, 126562), (126564, 126564), (126567, 126570),
    (126572, 126578), (126580, 126583), (126585, 126588), (126590, 126590), (126592, 126601), (126603, 126619),
    (126625, 126627), (126629, 126633), (126635, 126651), (131072, 173791), (173824, 177976), (177984, 178205),
    (178208, 183969), (183984, 191456), (194560, 195101), (196608, 201546)]"

definition isalpha :: "pychar \<Rightarrow> bool" where
  "isalpha c = ((65 \<le> c \<and> c \<le> 90) \<or> (97 \<le> c \<and> c \<le> 122) \<or> in_ranges c alpha_ranges_hi)"

text \<open>
  The decimal digits (category Nd) come in runs of ten consecutive code points with the
  values 0 to 9; \<open>decimal_runs_hi\<close> lists where each run beyond ASCII starts.
  \<^verbatim>\<open>int()\<close> and \<^verbatim>\<open>float()\<close> read such a digit as its value.
\<close>

definition decimal_runs_hi :: "nat list" where
  "decimal_runs_hi = [
    1632, 1776, 1984, 2406, 2534, 2662, 2790, 2918, 3046, 3174,
    3302, 3430, 3558, 3664, 3792, 3872, 4160, 4240, 6112, 6160,
    6470, 6608, 6784, 6800, 6992, 7088, 7232, 7248, 42528, 43216,
    43264, 43472, 43504, 43600, 44016, 65296, 66720, 68912, 69734, 69872,
    69942, 70096, 70384, 70736, 70864, 71248, 71360, 71472, 71904, 72016,
    72784, 73040, 73120, 92768, 92864, 93008, 120782, 120792, 120802, 120812,
    120822, 123200, 123632, 125264, 130032]"

fun run_value :: "nat \<Rightarrow> nat list \<Rightarrow> nat option" where
  "run_value c [] = None"
| "run_value c (s # ss) = (if s \<le> c \<and> c < s + 10 then Some (c - s) else run_value c ss)"

definition decimal_value :: "pychar \<Rightarrow> nat option" where
  "decimal_value c = (if 48 \<le> c \<and> c \<le> 57 then Some (c - 48) else run_value c decimal_runs_hi)"

subsection \<open>Slicing, searching, stripping, printing integers\<close>

text \<open>
  \<^verbatim>\<open>s[a:b]\<close>: a negative bound counts from the end, and both bounds are clipped to
  \<open>0 .. len(s)\<close>; an empty or reversed range gives the empty string.
\<close>

definition clip_bound :: "nat \<Rightarrow> int \<Rightarrow> nat" where
  "clip_bound n i = (if i < 0 then nat (max 0 (int n + i)) else min n (nat i))"

definition py_slice :: "'a list \<Rightarrow> int \<Rightarrow> int \<Rightarrow> 'a list" where
  "py_slice s a b =
     (let lo = clip_bound (length s) a; hi = clip_bound (length s) b
      in take (hi - lo) (drop lo s))"

text \<open>\<^verbatim>\<open>s.find(c)\<close> and \<^verbatim>\<open>s.rfind(c)\<close> for a one-character \<open>c\<close>: the lowest and the
  highest index of \<open>c\<close>, or \<open>-1\<close>.\<close>

fun find_from :: "nat \<Rightarrow> pychar \<Rightarrow> pystr \<Rightarrow> int" where
  "find_from i c [] = -1"
| "find_from i c (x # xs) = (if x = c then int i else find_from (Suc i) c xs)"

fun rfind_from :: "nat \<Rightarrow> pychar \<Rightarrow> pystr \<Rightarrow> int" where
  "rfind_from i c [] = -1"
| "rfind_from i c (x # xs) =
     (let r = rfind_from (Suc i) c xs
      in if 0 \<le> r then r else if x = c then int i else -1)"

definition py_find :: "pystr \<Rightarrow> pychar \<Rightarrow> int" where
  "py_find s c = find_from 0 c s"

definition py_rfind :: "pystr \<Rightarrow> pychar \<Rightarrow> int" where
  "py_rfind s c = rfind_from 0 c s"

text \<open>\<^verbatim>\<open>s.strip()\<close> removes leading and trailing whitespace; \<^verbatim>\<open>s.strip(chars)\<close> removes
  leading and trailing characters of \<open>chars\<close>.\<close>

definition strip_chars :: "(pychar \<Rightarrow> bool) \<Rightarrow> pystr \<Rightarrow> pystr" where
  "strip_chars P s = rev (dropWhile P (rev (dropWhile P s)))"

definition strip :: "pystr \<Rightarrow> pystr" where
  "strip s = strip_chars isspace s"

text \<open>\<^verbatim>\<open>str(i)\<close> for an integer: its decimal digits, with a minus sign when negative.\<close>

fun digits_of :: "nat \<Rightarrow> pystr" where
  "digits_of n = (if n < 10 then [48 + n] else digits_of (n div 10) @ [48 + n mod 10])"

definition str_int :: "int \<Rightarrow> pystr" where
  "str_int i = (if i < 0 then ch CHR ''-'' # digits_of (nat (- i)) else digits_of (nat i))"

section \<open>Values\<close>

text \<open>
  The values the parsers build and the serializer prints. A Python float is kept as the
  exact decimal it was read from: sign, mantissa and decimal exponent (the value is
  \<open>\<plusminus> m * 10 ^ e\<close>), or an infinity, or not-a-number. A dictionary is the list of its
  entries in insertion order; its keys are strings for every object read from JSON
  text, and the other hashable values where the code itself builds the dictionary.
\<close>

datatype pyfloat = FFinite bool nat int | FInf bool | FNan

datatype pykey = KStr pystr | KInt int | KFloat pyfloat | KBool bool | KNone

datatype pyval =
    VDict "(pykey \<times> pyval) list"
  | VList "pyval list"
  | VStr pystr
  | VInt int
  | VFloat pyfloat
  | VBool bool
  | VNone

text \<open>The exceptions the code can raise, each with its message (\<^verbatim>\<open>str(ex)\<close>).\<close>

datatype pyerror =
    AttributeError pystr
  | IndexError pystr
  | TypeError pystr
  | ValueError pystr

section \<open>Results and the error tracker\<close>

record json_results =
  original :: pystr
  fixed :: pystr
  errors :: "(pystr \<times> int list) list"

definition JsonResults :: "pystr \<Rightarrow> pystr \<Rightarrow> json_results" where
  "JsonResults orig fx = \<lparr>original = orig, fixed = fx, errors = []\<rparr>"

definition add_error :: "json_results \<Rightarrow> pystr \<Rightarrow> int \<Rightarrow> json_results" where
  "add_error r char idx =
     (let es = (if map_of (errors r) char = None then errors r @ [(char, [])] else errors r)
      in r\<lparr>errors := map (\<lambda>(k, ps). if k = char then (k, ps @ [idx]) else (k, ps)) es\<rparr>)"

text \<open>
  The fields of a \<^verbatim>\<open>JsonFixer\<close> that the parsing methods read and write, the
  \<^verbatim>\<open>lru_cache\<close> of \<^verbatim>\<open>_cached_parse\<close> as this instance sees it (most recently used
  entry first), and the file \<^verbatim>\<open>debug/failed_json.txt\<close> that \<^verbatim>\<open>_save_failure\<close> writes.
\<close>

record fixer =
  index :: nat
  json_str :: pystr
  logging :: bool
  logger :: "(pystr \<times> pystr) list"
  result :: "json_results option"
  cache :: "(pystr \<times> pyval) list"
  failure_file :: "pystr option"

definition JsonFixer :: "bool \<Rightarrow> fixer" where
  "JsonFixer lg = \<lparr>index = 0, json_str = [], logging = lg, logger = [], result = None,
     cache = [], failure_file = None\<rparr>"

definition STRING_DELIMITERS :: "pystr list" where
  "STRING_DELIMITERS = [[ch CHR 0x22], [ch CHR 0x27], py '', '']"

definition track_error :: "fixer \<Rightarrow> pystr \<Rightarrow> int \<Rightarrow> fixer" where
  "track_error fx char pos =
     (case result fx of
        None \<Rightarrow> fx
      | Some r \<Rightarrow>
          (let fx1 = fx\<lparr>result := Some (add_error r char pos)\<rparr>
           in if logging fx
              then (let context_start = max 0 (pos - 10);
                        context_end = min (int (length (json_str fx))) (pos + 10)
                    in fx1\<lparr>logger := logger fx @
                         [(py ''Invalid character '' @ [ch CHR 0x27] @ char @ [ch CHR 0x27] @
                             py '' at position '' @ str_int pos,
                           if 0 \<le> pos then py_slice (json_str fx) context_start context_end
                           else py ''Unknown context'')]\<rparr>)
              else fx1))"

section \<open>The structural scan of \<^verbatim>\<open>_process_chunk\<close>\<close>

text \<open>
  The scan keeps a stack of open quotes and a stack of open brackets, each entry with
  its position (the top is the last element, as in a Python list), and the flag
  \<^verbatim>\<open>key_mode\<close>. \<open>scan_step\<close> is the body of the \<^verbatim>\<open>for i, char in enumerate(rough)\<close> loop.
\<close>

record scan_state =
  quote_stack :: "(pychar \<times> nat) list"
  bracket_stack :: "(pychar \<times> nat) list"
  key_mode :: bool

definition scan_init :: scan_state where
  "scan_init = \<lparr>quote_stack = [], bracket_stack = [], key_mode = True\<rparr>"

definition expected_closer :: "pychar \<Rightarrow> pychar" where
  "expected_closer open_char = (if open_char = ch CHR ''['' then ch CHR '']'' else ch CHR ''}'')"

definition scan_step :: "nat \<Rightarrow> pychar \<Rightarrow> scan_state \<times> fixer \<Rightarrow> scan_state \<times> fixer" where
  "scan_step i char sf =
     (let (st, fx) = sf in
      if [char] \<in> set STRING_DELIMITERS then
        (if quote_stack st = [] then (st\<lparr>quote_stack := quote_stack st @ [(char, i)]\<rparr>, fx)
         else (let (last_quote, last_pos) = last (quote_stack st)
               in if char = last_quote then (st\<lparr>quote_stack := butlast (quote_stack st)\<rparr>, fx)
                  else (st, track_error (track_error fx [char] (int i)) [last_quote] (int last_pos))))
      else if quote_stack st \<noteq> [] then (st, fx)
      else if char \<in> set (py ''[{'') then
        (st\<lparr>bracket_stack := bracket_stack st @ [(char, i)],
            key_mode := (if char = ch CHR ''{'' then True else key_mode st)\<rparr>, fx)
      else if char \<in> set (py '']}'') then
        (if bracket_stack st = [] then (st, track_error fx [char] (int i))
         else (let (open_char, open_pos) = last (bracket_stack st);
                   st1 = st\<lparr>bracket_stack := butlast (bracket_stack st)\<rparr>
               in if char \<noteq> expected_closer open_char
                  then (st1, track_error (track_error fx [char] (int i)) [open_char] (int open_pos))
                  else (st1, fx)))
      else if char = ch CHR '':'' then
        (st\<lparr>key_mode := False\<rparr>, if \<not> key_mode st then track_error fx [char] (int i) else fx)
      else if char = ch CHR '','' then (st\<lparr>key_mode := True\<rparr>, fx)
      else (st, fx))"

fun scan_loop :: "nat \<Rightarrow> pystr \<Rightarrow> scan_state \<times> fixer \<Rightarrow> scan_state \<times> fixer" where
  "scan_loop i [] sf = sf"
| "scan_loop i (char # rest) sf = scan_loop (Suc i) rest (scan_step i char sf)"

text \<open>After the loop: every quote and bracket still open is reported at its own
  position and at \<^verbatim>\<open>len(rough)\<close>, the bracket there as the closer it lacks.\<close>

fun report_open_quotes :: "nat \<Rightarrow> (pychar \<times> nat) list \<Rightarrow> fixer \<Rightarrow> fixer" where
  "report_open_quotes n [] fx = fx"
| "report_open_quotes n ((quote_char, pos) # qs) fx =
     report_open_quotes n qs (track_error (track_error fx [quote_char] (int pos)) [quote_char] (int n))"

fun report_open_brackets :: "nat \<Rightarrow> (pychar \<times> nat) list \<Rightarrow> fixer \<Rightarrow> fixer" where
  "report_open_brackets n [] fx = fx"
| "report_open_brackets n ((char, pos) # bs) fx =
     report_open_brackets n bs
       (track_error (track_error fx [char] (int pos)) [expected_closer char] (int n))"

definition structural_scan :: "fixer \<Rightarrow> pystr \<Rightarrow> fixer" where
  "structural_scan fx rough =
     (let (st, fx1) = scan_loop 0 rough (scan_init, fx);
          fx2 = report_open_quotes (length rough) (quote_stack st) fx1
      in report_open_brackets (length rough) (bracket_stack st) fx2)"

subsection \<open>The trimmed window\<close>

definition has_array_before_object :: "pystr \<Rightarrow> bool" where
  "has_array_before_object text = (count_list text (ch CHR ''['') > count_list text (ch CHR ''{''))"

definition has_minimum_one_brace :: "pystr \<Rightarrow> bool" where
  "has_minimum_one_brace text =
     (count_list text (ch CHR ''{'') \<ge> 1 \<and> count_list text (ch CHR ''}'') \<ge> 1)"

definition trimmed_window :: "pystr \<Rightarrow> pystr" where
  "trimmed_window rough =
     (if has_array_before_object rough
      then py_slice rough (py_find rough (ch CHR ''['')) (py_rfind rough (ch CHR '']'') + 1)
      else if has_minimum_one_brace rough
      then py_slice rough (py_find rough (ch CHR ''{'')) (py_rfind rough (ch CHR ''}'') + 1)
      else rough)"

text \<open>
  The window as the specification words it: the characters at the positions from the
  first opener to the last closer, both included (no position lies in the span when
  the closer does not occur, or occurs only before the first opener).
\<close>

definition positions_of :: "pychar \<Rightarrow> pystr \<Rightarrow> nat list" where
  "positions_of c s = filter (\<lambda>p. s ! p = c) [0..<length s]"

definition inclusive_span :: "pystr \<Rightarrow> nat list \<Rightarrow> nat list \<Rightarrow> pystr" where
  "inclusive_span s opens closes =
     (if opens = [] \<or> closes = [] then []
      else map (\<lambda>p. s ! p) (filter (\<lambda>p. hd opens \<le> p \<and> p \<le> last closes) [0..<length s]))"

definition window_spec :: "pystr \<Rightarrow> pystr" where
  "window_spec s =
     (if length (positions_of (ch CHR ''['') s) > length (positions_of (ch CHR ''{'') s)
      then inclusive_span s (positions_of (ch CHR ''['') s) (positions_of (ch CHR '']'') s)
      else if positions_of (ch CHR ''{'') s \<noteq> [] \<and> positions_of (ch CHR ''}'') s \<noteq> []
      then inclusive_span s (positions_of (ch CHR ''{'') s) (positions_of (ch CHR ''}'') s)
      else s)"

section \<open>Numbers: \<^verbatim>\<open>int()\<close>, \<^verbatim>\<open>float()\<close> and \<^verbatim>\<open>repr\<close>\<close>

text \<open>
  Both conversions first bring the text to ASCII: a code point below 127 stays, a
  Unicode space becomes a blank, a Unicode decimal digit becomes its ASCII digit and
  anything else a question mark. Then blanks (the six ASCII ones) are removed at both
  ends.
\<close>

definition to_ascii :: "pystr \<Rightarrow> pystr" where
  "to_ascii s = map (\<lambda>c. if c < 127 then c
                          else if isspace c then ch CHR '' ''
                          else (case decimal_value c of Some d \<Rightarrow> 48 + d | None \<Rightarrow> ch CHR ''?'')) s"

definition ascii_space :: "pychar \<Rightarrow> bool" where
  "ascii_space c = ((9 \<le> c \<and> c \<le> 13) \<or> c = 32)"

definition ascii_digit :: "pychar \<Rightarrow> bool" where
  "ascii_digit c = (48 \<le> c \<and> c \<le> 57)"

definition number_text :: "pystr \<Rightarrow> pystr" where
  "number_text s = strip_chars ascii_space (to_ascii s)"

text \<open>The value of a string of ASCII digits, most significant first.\<close>

definition digits_value :: "pystr \<Rightarrow> nat" where
  "digits_value ds = foldl (\<lambda>acc d. 10 * acc + (d - 48)) 0 ds"

text \<open>
  Underscores: one may stand between two digits. \<open>strip_underscores prev s\<close> removes
  them, or fails; \<open>prev\<close> is the character before \<open>s\<close> (0 at the start).
\<close>

fun strip_underscores :: "pychar \<Rightarrow> pystr \<Rightarrow> pystr option" where
  "strip_underscores prev [] = (if prev = ch CHR ''_'' then None else Some [])"
| "strip_underscores prev (c # cs) =
     (if c = ch CHR ''_''
      then (if ascii_digit prev then strip_underscores c cs else None)
      else if prev = ch CHR ''_'' \<and> \<not> ascii_digit c then None
      else map_option (\<lambda>r. c # r) (strip_underscores c cs))"

text \<open>\<^verbatim>\<open>int(s)\<close> in base ten: an optional sign, then digits with single underscores
  between them; \<open>None\<close> is the \<^verbatim>\<open>ValueError\<close>.\<close>

definition split_sign :: "pystr \<Rightarrow> bool \<times> pystr" where
  "split_sign t =
     (case t of
        [] \<Rightarrow> (False, [])
      | c # r \<Rightarrow> if c = ch CHR ''-'' then (True, r) else if c = ch CHR ''+'' then (False, r) else (False, t))"

definition py_int :: "pystr \<Rightarrow> int option" where
  "py_int s =
     (let (neg, body) = split_sign (number_text s)
      in case strip_underscores 0 body of
           None \<Rightarrow> None
         | Some ds \<Rightarrow>
             if ds = [] \<or> \<not> list_all ascii_digit ds then None
             else Some (if neg then - int (digits_value ds) else int (digits_value ds)))"

text \<open>
  \<^verbatim>\<open>float(s)\<close>: an optional sign, then \<open>inf\<close>, \<open>infinity\<close> or \<open>nan\<close> in any case, or a
  decimal numeral: digits, an optional point and digits (at least one digit in all), and
  an optional exponent. The value is kept exactly, with the mantissa free of trailing
  zeros; what binary64 cannot hold is an infinity (from \<open>2^1024 - 2^970\<close> on) or a zero
  (up to \<open>2^-1075\<close>). The rounding of the mantissa to 53 bits is not modelled: a float
  prints with the digits it was read with.
\<close>

fun trim_zeros :: "nat \<Rightarrow> int \<Rightarrow> nat \<times> int" where
  "trim_zeros m e = (if m \<noteq> 0 \<and> m mod 10 = 0 then trim_zeros (m div 10) (e + 1) else (m, e))"

definition make_float :: "bool \<Rightarrow> nat \<Rightarrow> int \<Rightarrow> pyfloat" where
  "make_float neg m e =
     (if m = 0 then FFinite neg 0 0
      else if (if 0 \<le> e then int m * 10 ^ nat e \<ge> 2 ^ 1024 - 2 ^ 970
               else int m \<ge> (2 ^ 1024 - 2 ^ 970) * 10 ^ nat (- e)) then FInf neg
      else if e < 0 \<and> int m * 2 ^ 1075 \<le> 10 ^ nat (- e) then FFinite neg 0 0
      else (let (m', e') = trim_zeros m e in FFinite neg m' e'))"

definition lower_ascii :: "pychar \<Rightarrow> pychar" where
  "lower_ascii c = (if 65 \<le> c \<and> c \<le> 90 then c + 32 else c)"

definition parse_exponent :: "pystr \<Rightarrow> int option" where
  "parse_exponent t =
     (case t of
        [] \<Rightarrow> Some 0
      | c # r \<Rightarrow>
          if c = ch CHR ''e'' \<or> c = ch CHR ''E''
          then (let (neg, ds) = split_sign r
                in if ds = [] \<or> \<not> list_all ascii_digit ds then None
                   else Some (if neg then - int (digits_value ds) else int (digits_value ds)))
          else None)"

definition parse_decimal :: "bool \<Rightarrow> pystr \<Rightarrow> pyfloat option" where
  "parse_decimal neg t =
     (let ip = takeWhile ascii_digit t;
          r1 = dropWhile ascii_digit t;
          (fp, r2) = (case r1 of
                        [] \<Rightarrow> ([], [])
                      | c # r \<Rightarrow> if c = ch CHR ''.'' then (takeWhile ascii_digit r, dropWhile ascii_digit r)
                                 else ([], r1))
      in if ip = [] \<and> fp = [] then None
         else (case parse_exponent r2 of
                 None \<Rightarrow> None
               | Some ex \<Rightarrow> Some (make_float neg (digits_value (ip @ fp)) (ex - int (length fp)))))"

definition py_float :: "pystr \<Rightarrow> pyfloat option" where
  "py_float s =
     (case strip_underscores 0 (number_text s) of
        None \<Rightarrow> None
      | Some t \<Rightarrow>
          (let (neg, body) = split_sign t; low = map lower_ascii body
           in if low = py ''inf'' \<or> low = py ''infinity'' then Some (FInf neg)
              else if low = py ''nan'' then Some FNan
              else parse_decimal neg body))"

text \<open>
  \<^verbatim>\<open>repr\<close> of a float: with the decimal point after \<open>decpt\<close> of the mantissa's digits,
  the exponent form is used when \<open>decpt\<close> is below \<open>-3\<close> or above 16, and the positional
  form (always with a point) otherwise.
\<close>

definition float_repr :: "pyfloat \<Rightarrow> pystr" where
  "float_repr f =
     (case f of
        FNan \<Rightarrow> py ''nan''
      | FInf neg \<Rightarrow> (if neg then py ''-inf'' else py ''inf'')
      | FFinite neg m e \<Rightarrow>
          (let sign = (if neg then py ''-'' else []);
               ds = digits_of m;
               n = int (length ds);
               decpt = n + e
           in if m = 0 then sign @ py ''0.0''
              else if decpt \<le> -4 \<or> decpt > 16
              then (let ex = decpt - 1;
                        exd = digits_of (nat (abs ex))
                    in sign @ [hd ds] @ (if tl ds = [] then [] else ch CHR ''.'' # tl ds) @
                       py ''e'' @ (if ex < 0 then py ''-'' else py ''+'') @
                       (if length exd < 2 then ch CHR ''0'' # exd else exd))
              else if decpt \<le> 0 then sign @ py ''0.'' @ replicate (nat (- decpt)) (ch CHR ''0'') @ ds
              else if decpt \<ge> n then sign @ ds @ replicate (nat (decpt - n)) (ch CHR ''0'') @ py ''.0''
              else sign @ take (nat decpt) ds @ py ''.'' @ drop (nat decpt) ds))"

text \<open>\<^verbatim>\<open>str(v)\<close> for the scalars, and the truth value of an object (\<^verbatim>\<open>if not s\<close>).\<close>

definition py_str :: "pyval \<Rightarrow> pystr" where
  "py_str v =
     (case v of
        VStr s \<Rightarrow> s
      | VInt i \<Rightarrow> str_int i
      | VFloat f \<Rightarrow> float_repr f
      | VBool b \<Rightarrow> (if b then py ''True'' else py ''False'')
      | VNone \<Rightarrow> py ''None''
      | _ \<Rightarrow> [])"

definition float_is_zero :: "pyfloat \<Rightarrow> bool" where
  "float_is_zero f = (case f of FFinite neg m e \<Rightarrow> m = 0 | _ \<Rightarrow> False)"

definition truthy :: "pyval \<Rightarrow> bool" where
  "truthy v =
     (case v of
        VDict kvs \<Rightarrow> kvs \<noteq> []
      | VList xs \<Rightarrow> xs \<noteq> []
      | VStr s \<Rightarrow> s \<noteq> []
      | VInt i \<Rightarrow> i \<noteq> 0
      | VFloat f \<Rightarrow> \<not> float_is_zero f
      | VBool b \<Rightarrow> b
      | VNone \<Rightarrow> False)"

section \<open>Dictionaries\<close>

text \<open>
  A value is hashable unless it is a list or a dictionary. Two keys are the same key
  when Python compares them equal: strings by their text, numbers and booleans by their
  value (so \<open>0\<close>, \<open>0.0\<close>, \<open>-0.0\<close> and \<open>False\<close> are one key), and a not-a-number
  float with nothing. \<open>dict_set\<close> is \<^verbatim>\<open>d[k] = v\<close>: an entry with the same key keeps its
  place and its key and takes the new value; a new key goes to the end.
\<close>

definition key_of :: "pyval \<Rightarrow> pykey option" where
  "key_of v =
     (case v of
        VStr s \<Rightarrow> Some (KStr s)
      | VInt i \<Rightarrow> Some (KInt i)
      | VFloat f \<Rightarrow> Some (KFloat f)
      | VBool b \<Rightarrow> Some (KBool b)
      | VNone \<Rightarrow> Some KNone
      | _ \<Rightarrow> None)"

definition decimal_norm :: "bool \<Rightarrow> nat \<Rightarrow> int \<Rightarrow> bool \<times> nat \<times> int" where
  "decimal_norm neg m e = (if m = 0 then (False, 0, 0) else (neg, trim_zeros m e))"

definition key_number :: "pykey \<Rightarrow> (bool \<times> nat \<times> int) option" where
  "key_number k =
     (case k of
        KInt i \<Rightarrow> Some (decimal_norm (i < 0) (nat (abs i)) 0)
      | KBool b \<Rightarrow> Some (decimal_norm False (if b then 1 else 0) 0)
      | KFloat (FFinite neg m e) \<Rightarrow> Some (decimal_norm neg m e)
      | _ \<Rightarrow> None)"

definition key_eq :: "pykey \<Rightarrow> pykey \<Rightarrow> bool" where
  "key_eq a b =
     (case (a, b) of
        (KStr s, KStr t) \<Rightarrow> s = t
      | (KNone, KNone) \<Rightarrow> True
      | (KFloat (FInf x), KFloat (FInf y)) \<Rightarrow> x = y
      | _ \<Rightarrow> (case (key_number a, key_number b) of
                (Some x, Some y) \<Rightarrow> x = y
              | _ \<Rightarrow> False))"

fun dict_set :: "(pykey \<times> pyval) list \<Rightarrow> pykey \<Rightarrow> pyval \<Rightarrow> (pykey \<times> pyval) list" where
  "dict_set [] k v = [(k, v)]"
| "dict_set ((k', v') # kvs) k v =
     (if key_eq k' k then (k', v) # kvs else (k', v') # dict_set kvs k v)"

section \<open>The tolerant value parser\<close>

subsection \<open>\<^verbatim>\<open>_cleanup_string\<close>\<close>

definition type_name :: "pyval \<Rightarrow> pystr" where
  "type_name v =
     (case v of
        VDict _ \<Rightarrow> py ''dict'' | VList _ \<Rightarrow> py ''list'' | VStr _ \<Rightarrow> py ''str''
      | VInt _ \<Rightarrow> py ''int'' | VFloat _ \<Rightarrow> py ''float'' | VBool _ \<Rightarrow> py ''bool''
      | VNone \<Rightarrow> py ''NoneType'')"

text \<open>Calling \<^verbatim>\<open>s.strip()\<close> on a value that is not a string raises \<^verbatim>\<open>AttributeError\<close>.\<close>

definition unhashable :: "pyval \<Rightarrow> pyerror" where
  "unhashable v = TypeError (py ''unhashable type: '' @ [ch CHR 0x27] @ type_name v @ [ch CHR 0x27])"

definition no_strip :: "pyval \<Rightarrow> pyerror" where
  "no_strip v = AttributeError ([ch CHR 0x27] @ type_name v @ [ch CHR 0x27] @
                   py '' object has no attribute '' @ [ch CHR 0x27] @ py ''strip'' @ [ch CHR 0x27])"

definition cleanup_string :: "pyval \<Rightarrow> bool \<Rightarrow> pyerror + pyval" where
  "cleanup_string s is_key =
     (if \<not> truthy s then Inr s
      else (case s of
              VStr t \<Rightarrow>
                (let result = strip t
                 in if is_key
                    then Inr (VStr (filter (\<lambda>c. c \<noteq> ch CHR '';'') (filter (\<lambda>c. c \<noteq> ch CHR '':'') result)))
                    else Inr (VStr (strip_chars (\<lambda>c. c \<in> {ch CHR 0x22, ch CHR 0x27, ch CHR 0x5C}) result)))
            | _ \<Rightarrow> Inl (no_strip s)))"

subsection \<open>\<^verbatim>\<open>parse_string\<close>\<close>

text \<open>
  The \<^verbatim>\<open>while\<close> loop of \<^verbatim>\<open>parse_string\<close>, over the characters from \<^verbatim>\<open>self.index\<close> on;
  it returns the index, the accumulated string and \<^verbatim>\<open>found_end\<close>.
\<close>

fun string_loop :: "bool \<Rightarrow> pychar \<Rightarrow> pystr \<Rightarrow> nat \<Rightarrow> pystr \<Rightarrow> bool \<Rightarrow> nat \<times> pystr \<times> bool" where
  "string_loop is_quoted quote [] i string escaped = (i, string, False)"
| "string_loop is_quoted quote (char # rest) i string escaped =
     (if escaped then string_loop is_quoted quote rest (i + 1) (string @ [char]) False
      else if char = ch CHR 0x5C then string_loop is_quoted quote rest (i + 1) string True
      else if is_quoted \<and> char = quote then (i + 1, string, True)
      else if \<not> is_quoted \<and> (char \<in> set (py '',:]}'') \<or> (isspace char \<and> strip string \<noteq> []))
      then (i, string, False)
      else string_loop is_quoted quote rest (i + 1) (string @ [char]) False)"

definition parse_string :: "fixer \<Rightarrow> (pyerror + pyval) \<times> fixer" where
  "parse_string fx =
     (if index fx \<ge> length (json_str fx) then (Inr (VStr []), fx)
      else
        (let start_pos = index fx;
             quote = json_str fx ! index fx;
             is_quoted = ([quote] \<in> set STRING_DELIMITERS);
             i0 = (if is_quoted then index fx + 1 else index fx);
             (i1, string, found_end) = string_loop is_quoted quote (drop i0 (json_str fx)) i0 [] False;
             fx1 = fx\<lparr>index := i1\<rparr>;
             fx2 = (if is_quoted \<and> \<not> found_end then track_error fx1 [quote] (int start_pos) else fx1);
             result = strip string
         in case (if is_quoted then None
                  else if ch CHR ''.'' \<in> set result then map_option VFloat (py_float result)
                  else map_option VInt (py_int result)) of
              Some number \<Rightarrow> (Inr number, fx2)
            | None \<Rightarrow> (cleanup_string (VStr result) False, fx2)))"

subsection \<open>\<^verbatim>\<open>parse_number\<close>\<close>

definition number_char :: "pychar \<Rightarrow> bool" where
  "number_char c = (isdigit c \<or> c \<in> set (py ''.-eE''))"

text \<open>\<^verbatim>\<open>number\<close> holds digits, which have no case, and the characters \<open>.-eE\<close>: it has an
  \<open>e\<close> in lower case exactly when it has an \<open>e\<close> or an \<open>E\<close>.\<close>

definition parse_number :: "fixer \<Rightarrow> (pyerror + pyval) \<times> fixer" where
  "parse_number fx =
     (let number = takeWhile number_char (drop (index fx) (json_str fx));
          fx1 = fx\<lparr>index := index fx + length number\<rparr>;
          converted =
            (if ch CHR ''.'' \<notin> set number \<and> ch CHR ''e'' \<notin> set (map lower_ascii number)
             then map_option VInt (py_int number)
             else map_option VFloat (py_float number))
      in (Inr (case converted of Some v \<Rightarrow> v | None \<Rightarrow> VInt 0), fx1))"

subsection \<open>\<^verbatim>\<open>parse\<close>, \<^verbatim>\<open>parse_object\<close> and \<^verbatim>\<open>parse_array\<close>\<close>

text \<open>
  The three methods call each other, so they are defined together, each \<^verbatim>\<open>while\<close>
  iteration and each call taking one unit of fuel; \<open>None\<close> is running out of fuel. The
  loop variables of \<^verbatim>\<open>parse_object\<close> (\<^verbatim>\<open>obj\<close>, \<^verbatim>\<open>expect_key\<close>, \<^verbatim>\<open>current_key\<close>) and of
  \<^verbatim>\<open>parse_array\<close> (\<^verbatim>\<open>arr\<close>) are arguments. An exception leaves with the state it was
  raised in.
\<close>

fun parse_fuel :: "nat \<Rightarrow> fixer \<Rightarrow> ((pyerror + pyval) \<times> fixer) option"
  and parse_object_fuel :: "nat \<Rightarrow> fixer \<Rightarrow> (pykey \<times> pyval) list \<Rightarrow> bool \<Rightarrow> pyval option
        \<Rightarrow> ((pyerror + pyval) \<times> fixer) option"
  and parse_array_fuel :: "nat \<Rightarrow> fixer \<Rightarrow> pyval list \<Rightarrow> ((pyerror + pyval) \<times> fixer) option"
where
  "parse_fuel 0 fx = None"
| "parse_fuel (Suc n) fx =
     (if index fx < length (json_str fx) then
        (let char = json_str fx ! index fx in
         if isspace char then parse_fuel n (fx\<lparr>index := index fx + 1\<rparr>)
         else if char = ch CHR ''{'' then parse_object_fuel n (fx\<lparr>index := index fx + 1\<rparr>) [] True None
         else if char = ch CHR ''['' then parse_array_fuel n (fx\<lparr>index := index fx + 1\<rparr>) []
         else if [char] \<in> set STRING_DELIMITERS \<or> isalpha char then Some (parse_string fx)
         else if isdigit char \<or> char \<in> set (py ''.-'') then Some (parse_number fx)
         else parse_fuel n (fx\<lparr>index := index fx + 1\<rparr>))
      else Some (Inr VNone, fx))"
| "parse_object_fuel 0 fx obj expect_key current_key = None"
| "parse_object_fuel (Suc n) fx obj expect_key current_key =
     (if index fx < length (json_str fx) then
        (let char = json_str fx ! index fx in
         if isspace char \<or> char = ch CHR '','' then
           parse_object_fuel n (fx\<lparr>index := index fx + 1\<rparr>) obj expect_key current_key
         else if char = ch CHR ''}'' then Some (Inr (VDict obj), fx\<lparr>index := index fx + 1\<rparr>)
         else if expect_key then
           (case parse_string fx of
              (Inl e, fx1) \<Rightarrow> Some (Inl e, fx1)
            | (Inr s, fx1) \<Rightarrow>
                (case cleanup_string s True of
                   Inl e \<Rightarrow> Some (Inl e, fx1)
                 | Inr k \<Rightarrow> parse_object_fuel n fx1 obj False (Some k)))
         else if char = ch CHR '':'' then
           parse_object_fuel n (fx\<lparr>index := index fx + 1\<rparr>) obj expect_key current_key
         else
           (case parse_fuel n fx of
              None \<Rightarrow> None
            | Some (Inl e, fx1) \<Rightarrow> Some (Inl e, fx1)
            | Some (Inr v, fx1) \<Rightarrow>
                (case current_key of
                   None \<Rightarrow> parse_object_fuel n fx1 obj True None
                 | Some k \<Rightarrow>
                     if v \<noteq> VNone
                     then (case key_of k of
                             None \<Rightarrow> Some (Inl (unhashable k), fx1)
                           | Some key \<Rightarrow> parse_object_fuel n fx1 (dict_set obj key v) True None)
                     else parse_object_fuel n fx1 obj True None)))
      else Some (Inr (VDict obj), fx))"
| "parse_array_fuel 0 fx arr = None"
| "parse_array_fuel (Suc n) fx arr =
     (if index fx < length (json_str fx) then
        (let i1 = index fx + length (takeWhile isspace (drop (index fx) (json_str fx))) in
         if i1 \<ge> length (json_str fx) \<or> json_str fx ! i1 = ch CHR '']''
         then Some (Inr (VList arr), fx\<lparr>index := i1 + 1\<rparr>)
         else
           (case parse_fuel n (fx\<lparr>index := i1\<rparr>) of
              None \<Rightarrow> None
            | Some (Inl e, fx1) \<Rightarrow> Some (Inl e, fx1)
            | Some (Inr v, fx1) \<Rightarrow>
                (let arr1 = (if v \<noteq> VNone then arr @ [v] else arr);
                     i2 = index fx1 + length (takeWhile (\<lambda>c. isspace c \<or> c = ch CHR '','')
                                                (drop (index fx1) (json_str fx1)))
                 in parse_array_fuel n (fx1\<lparr>index := i2\<rparr>) arr1)))
      else Some (Inr (VList arr), fx))"

text \<open>
  The methods themselves, with the fuel that the text left to read calls for: three
  units for each character and one (\<^verbatim>\<open>parse\<close>) or two (the other two) on top; theorem
  \<open>parser_terminates\<close> shows that this is enough.
\<close>

definition remaining :: "fixer \<Rightarrow> nat" where
  "remaining fx = length (json_str fx) - index fx"

definition parse :: "fixer \<Rightarrow> (pyerror + pyval) \<times> fixer" where
  "parse fx = the (parse_fuel (3 * remaining fx + 1) fx)"

definition parse_object :: "fixer \<Rightarrow> (pyerror + pyval) \<times> fixer" where
  "parse_object fx = the (parse_object_fuel (3 * remaining fx + 3) fx [] True None)"

definition parse_array :: "fixer \<Rightarrow> (pyerror + pyval) \<times> fixer" where
  "parse_array fx = the (parse_array_fuel (3 * remaining fx + 2) fx [])"

subsection \<open>\<^verbatim>\<open>_cached_parse\<close>\<close>

text \<open>
  \<^verbatim>\<open>lru_cache(maxsize=1024)\<close> around the parse: a text already in the cache returns the
  value stored for it and the body does not run; otherwise the body runs and its
  value is stored, the least recently used entry making room. A call that raises stores
  nothing.
\<close>

definition cached_parse :: "fixer \<Rightarrow> pystr \<Rightarrow> (pyerror + pyval) \<times> fixer" where
  "cached_parse fx text =
     (case map_of (cache fx) text of
        Some v \<Rightarrow> (Inr v, fx\<lparr>cache := (text, v) # filter (\<lambda>(k, _). k \<noteq> text) (cache fx)\<rparr>)
      | None \<Rightarrow>
          (case parse (fx\<lparr>json_str := text, index := 0\<rparr>) of
             (Inl e, fx1) \<Rightarrow> (Inl e, fx1)
           | (Inr v, fx1) \<Rightarrow> (Inr v, fx1\<lparr>cache := take 1024 ((text, v) # cache fx1)\<rparr>)))"

subsection \<open>Returning and advancing\<close>

text \<open>A call returns when it does not run out of fuel and leaves the text as it is and the
  index where it was or further on; it advances when, short of the end of the text, the
  index has moved on.\<close>

definition returns :: "fixer \<Rightarrow> ((pyerror + pyval) \<times> fixer) option \<Rightarrow> bool" where
  "returns fx res = (case res of None \<Rightarrow> False
                     | Some (r, fx') \<Rightarrow> json_str fx' = json_str fx \<and> index fx \<le> index fx')"

definition advances :: "fixer \<Rightarrow> ((pyerror + pyval) \<times> fixer) option \<Rightarrow> bool" where
  "advances fx res = (case res of None \<Rightarrow> False
                     | Some (r, fx') \<Rightarrow> json_str fx' = json_str fx \<and> index fx \<le> index fx' \<and>
                          (index fx < length (json_str fx) \<longrightarrow> index fx < index fx'))"


subsection \<open>Values without nulls\<close>

text \<open>No element of a list and no value of a dictionary is \<^verbatim>\<open>None\<close>, at any depth.\<close>

fun no_nulls :: "pyval \<Rightarrow> bool" where
  "no_nulls (VDict kvs) = (\<forall>kv \<in> set kvs. snd kv \<noteq> VNone \<and> no_nulls (snd kv))"
| "no_nulls (VList xs) = (\<forall>x \<in> set xs. x \<noteq> VNone \<and> no_nulls x)"
| "no_nulls (VStr s) = True"
| "no_nulls (VInt i) = True"
| "no_nulls (VFloat f) = True"
| "no_nulls (VBool b) = True"
| "no_nulls VNone = True"

definition good_entries :: "(pykey \<times> pyval) list \<Rightarrow> bool" where
  "good_entries kvs = (\<forall>kv \<in> set kvs. snd kv \<noteq> VNone \<and> no_nulls (snd kv))"

definition good_elems :: "pyval list \<Rightarrow> bool" where
  "good_elems xs = (\<forall>x \<in> set xs. x \<noteq> VNone \<and> no_nulls x)"


section \<open>The strict parse: \<^verbatim>\<open>json.loads\<close>\<close>

text \<open>
  The standard library's decoder, as CPython 3.11 has it: a scanner over the text that
  returns the value and what is left, or the position of the \<^verbatim>\<open>JSONDecodeError\<close>. The
  scanner reads the remaining characters, with the index of the first of them in the
  whole text. Interpreter limits (recursion depth, the length of an integer literal)
  are not modelled.
\<close>

definition json_ws :: "pychar \<Rightarrow> bool" where
  "json_ws c = (c = 32 \<or> c = 9 \<or> c = 10 \<or> c = 13)"

definition skip_ws :: "pystr \<Rightarrow> nat \<Rightarrow> pystr \<times> nat" where
  "skip_ws cs pos = (dropWhile json_ws cs, pos + length (takeWhile json_ws cs))"

definition hex_value :: "pychar \<Rightarrow> nat option" where
  "hex_value c =
     (if 48 \<le> c \<and> c \<le> 57 then Some (c - 48)
      else if 97 \<le> c \<and> c \<le> 102 then Some (c - 87)
      else if 65 \<le> c \<and> c \<le> 70 then Some (c - 55)
      else None)"

definition hex4 :: "pystr \<Rightarrow> nat option" where
  "hex4 ds =
     (case map hex_value ds of
        [Some a, Some b, Some c, Some d] \<Rightarrow> Some (((a * 16 + b) * 16 + c) * 16 + d)
      | _ \<Rightarrow> None)"

definition simple_escape :: "pychar \<Rightarrow> pychar option" where
  "simple_escape e =
     (if e = ch CHR 0x22 \<or> e = ch CHR 0x5C \<or> e = ch CHR ''/'' then Some e
      else if e = ch CHR ''b'' then Some 8
      else if e = ch CHR ''f'' then Some 12
      else if e = ch CHR ''n'' then Some 10
      else if e = ch CHR ''r'' then Some 13
      else if e = ch CHR ''t'' then Some 9
      else None)"

text \<open>
  \<open>scanstring begin acc cs pos\<close> reads a string body up to its closing quote; \<open>begin\<close>
  is the index of the opening quote, where an unterminated string is reported. A
  \<open>\u\<close> escape needs its four digits and one character more; a high surrogate
  followed by an escaped low surrogate is one code point.
\<close>

function scanstring :: "nat \<Rightarrow> pystr \<Rightarrow> pystr \<Rightarrow> nat \<Rightarrow> nat + (pystr \<times> pystr \<times> nat)" where
  "scanstring begin acc [] pos = Inl begin"
| "scanstring begin acc (c # cs) pos =
     (if c = ch CHR 0x22 then Inr (acc, cs, pos + 1)
      else if c = ch CHR 0x5C then
        (case cs of
           [] \<Rightarrow> Inl begin
         | e # cs1 \<Rightarrow>
             if e \<noteq> ch CHR ''u'' then
               (case simple_escape e of
                  None \<Rightarrow> Inl pos
                | Some x \<Rightarrow> scanstring begin (acc @ [x]) cs1 (pos + 2))
             else if length cs1 < 5 then Inl (pos + 1)
             else
               (case hex4 (take 4 cs1) of
                  None \<Rightarrow> Inl (pos + 1)
                | Some u \<Rightarrow>
                    if 0xD800 \<le> u \<and> u \<le> 0xDBFF \<and> length (drop 4 cs1) > 6 \<and>
                       take 2 (drop 4 cs1) = [ch CHR 0x5C, ch CHR ''u'']
                    then
                      (case hex4 (take 4 (drop 6 cs1)) of
                         None \<Rightarrow> Inl (pos + 7)
                       | Some u2 \<Rightarrow>
                           if 0xDC00 \<le> u2 \<and> u2 \<le> 0xDFFF
                           then scanstring begin
                                  (acc @ [0x10000 + (u - 0xD800) * 1024 + (u2 - 0xDC00)])
                                  (drop 10 cs1) (pos + 12)
                           else scanstring begin (acc @ [u]) (drop 4 cs1) (pos + 6))
                    else scanstring begin (acc @ [u]) (drop 4 cs1) (pos + 6)))
      else if c \<le> 0x1F then Inl pos
      else scanstring begin (acc @ [c]) cs (pos + 1))"
  by pat_completeness auto
termination
  by (relation "measure (\<lambda>(begin, acc, cs, pos). length cs)") auto

text \<open>
  A number is the longest prefix of the form
  \<^verbatim>\<open>-?(0|[1-9][0-9]*)(\.[0-9]+)?([eE][-+]?[0-9]+)?\<close>; with a fraction or an exponent it
  is read by \<^verbatim>\<open>float\<close>, otherwise by \<^verbatim>\<open>int\<close>. The result is the value and the length of
  the numeral.
\<close>

definition number_int_part :: "pystr \<Rightarrow> pystr" where
  "number_int_part r =
     (case r of
        [] \<Rightarrow> []
      | d # r' \<Rightarrow> if 49 \<le> d \<and> d \<le> 57 then d # takeWhile ascii_digit r'
                 else if d = 48 then [d] else [])"

definition number_frac_part :: "pystr \<Rightarrow> pystr" where
  "number_frac_part r =
     (case r of
        d # x # r' \<Rightarrow> if d = ch CHR ''.'' \<and> ascii_digit x then d # x # takeWhile ascii_digit r' else []
      | _ \<Rightarrow> [])"

definition number_exp_part :: "pystr \<Rightarrow> pystr" where
  "number_exp_part r =
     (case r of
        [] \<Rightarrow> []
      | e # r' \<Rightarrow>
          if e = ch CHR ''e'' \<or> e = ch CHR ''E''
          then (let sg = (case r' of
                            [] \<Rightarrow> []
                          | s # _ \<Rightarrow> if s = ch CHR ''+'' \<or> s = ch CHR ''-'' then [s] else []);
                    ds = takeWhile ascii_digit (drop (length sg) r')
                in if ds = [] then [] else e # sg @ ds)
          else [])"

definition match_number :: "pystr \<Rightarrow> (pyval \<times> nat) option" where
  "match_number cs =
     (let sg = (case cs of [] \<Rightarrow> [] | c # _ \<Rightarrow> if c = ch CHR ''-'' then [c] else []);
          ip = number_int_part (drop (length sg) cs)
      in if ip = [] then None
         else
           (let fp = number_frac_part (drop (length sg + length ip) cs);
                ep = number_exp_part (drop (length sg + length ip + length fp) cs);
                numstr = sg @ ip @ fp @ ep
            in if fp = [] \<and> ep = []
               then map_option (\<lambda>i. (VInt i, length numstr)) (py_int numstr)
               else map_option (\<lambda>f. (VFloat f, length numstr)) (py_float numstr)))"

text \<open>
  The scanner proper: \<open>scan_once\<close> reads one value, \<open>object_loop\<close> the members of an
  object from a key on, \<open>array_loop\<close> the elements of an array. They call each other,
  so each call takes one unit of fuel and \<open>None\<close> is running out of it.
\<close>

type_synonym scan_result = "nat + (pyval \<times> pystr \<times> nat)"

definition scan_string_value :: "pystr \<Rightarrow> nat \<Rightarrow> scan_result" where
  "scan_string_value r pos =
     (case scanstring pos [] r (pos + 1) of
        Inl p \<Rightarrow> Inl p
      | Inr (s, rest, p) \<Rightarrow> Inr (VStr s, rest, p))"

text \<open>
  Beside \<open>null\<close>, \<open>true\<close> and \<open>false\<close> the decoder reads the constants \<open>NaN\<close>,
  \<open>Infinity\<close> and \<open>-Infinity\<close>, which are not JSON; the flag \<open>ext\<close> says whether they
  are accepted (\<^verbatim>\<open>json.loads\<close> accepts them; a decoder whose \<^verbatim>\<open>parse_constant\<close> hook
  raises does not).
\<close>

definition scan_constant :: "bool \<Rightarrow> pystr \<Rightarrow> (pyval \<times> nat) option" where
  "scan_constant ext cs =
     (if take 4 cs = py ''null'' then Some (VNone, 4)
      else if take 4 cs = py ''true'' then Some (VBool True, 4)
      else if take 5 cs = py ''false'' then Some (VBool False, 5)
      else if ext \<and> take 3 cs = py ''NaN'' then Some (VFloat FNan, 3)
      else if ext \<and> take 8 cs = py ''Infinity'' then Some (VFloat (FInf False), 8)
      else if ext \<and> take 9 cs = py ''-Infinity'' then Some (VFloat (FInf True), 9)
      else None)"

fun scan_once :: "bool \<Rightarrow> nat \<Rightarrow> pystr \<Rightarrow> nat \<Rightarrow> scan_result option"
  and object_loop :: "bool \<Rightarrow> nat \<Rightarrow> (pykey \<times> pyval) list \<Rightarrow> pystr \<Rightarrow> nat \<Rightarrow> scan_result option"
  and array_loop :: "bool \<Rightarrow> nat \<Rightarrow> pyval list \<Rightarrow> pystr \<Rightarrow> nat \<Rightarrow> scan_result option"
where
  "scan_once ext 0 cs pos = None"
| "scan_once ext (Suc n) cs pos =
     (case cs of
        [] \<Rightarrow> Some (Inl pos)
      | c # r \<Rightarrow>
          if c = ch CHR 0x22 then Some (scan_string_value r pos)
          else if c = ch CHR ''{'' then
            (let (r1, p1) = skip_ws r (pos + 1)
             in case r1 of
                  [] \<Rightarrow> Some (Inl p1)
                | d # r2 \<Rightarrow> if d = ch CHR ''}'' then Some (Inr (VDict [], r2, p1 + 1))
                            else object_loop ext n [] r1 p1)
          else if c = ch CHR ''['' then
            (let (r1, p1) = skip_ws r (pos + 1)
             in case r1 of
                  [] \<Rightarrow> Some (Inl p1)
                | d # r2 \<Rightarrow> if d = ch CHR '']'' then Some (Inr (VList [], r2, p1 + 1))
                            else array_loop ext n [] r1 p1)
          else
            (case scan_constant ext cs of
               Some (v, k) \<Rightarrow> Some (Inr (v, drop k cs, pos + k))
             | None \<Rightarrow>
                 (case match_number cs of
                    None \<Rightarrow> Some (Inl pos)
                  | Some (v, k) \<Rightarrow> Some (Inr (v, drop k cs, pos + k)))))"
| "object_loop ext 0 pairs cs pos = None"
| "object_loop ext (Suc n) pairs cs pos =
     (case cs of
        [] \<Rightarrow> Some (Inl pos)
      | c # r \<Rightarrow>
          if c \<noteq> ch CHR 0x22 then Some (Inl pos)
          else
            (case scanstring pos [] r (pos + 1) of
               Inl p \<Rightarrow> Some (Inl p)
             | Inr (key, r1, p1) \<Rightarrow>
                 (let (r2, p2) = skip_ws r1 p1
                  in case r2 of
                       [] \<Rightarrow> Some (Inl p2)
                     | d # r3 \<Rightarrow>
                         if d \<noteq> ch CHR '':'' then Some (Inl p2)
                         else
                           (let (r4, p4) = skip_ws r3 (p2 + 1)
                            in case scan_once ext n r4 p4 of
                                 None \<Rightarrow> None
                               | Some (Inl p) \<Rightarrow> Some (Inl p)
                               | Some (Inr (v, r5, p5)) \<Rightarrow>
                                   (let pairs1 = dict_set pairs (KStr key) v;
                                        (r6, p6) = skip_ws r5 p5
                                    in case r6 of
                                         [] \<Rightarrow> Some (Inl p6)
                                       | e # r7 \<Rightarrow>
                                           if e = ch CHR ''}'' then Some (Inr (VDict pairs1, r7, p6 + 1))
                                           else if e = ch CHR '','' then
                                             (let (r8, p8) = skip_ws r7 (p6 + 1)
                                              in object_loop ext n pairs1 r8 p8)
                                           else Some (Inl p6))))))"
| "array_loop ext 0 acc cs pos = None"
| "array_loop ext (Suc n) acc cs pos =
     (case scan_once ext n cs pos of
        None \<Rightarrow> None
      | Some (Inl p) \<Rightarrow> Some (Inl p)
      | Some (Inr (v, r1, p1)) \<Rightarrow>
          (let (r2, p2) = skip_ws r1 p1
           in case r2 of
                [] \<Rightarrow> Some (Inl p2)
              | e # r3 \<Rightarrow>
                  if e = ch CHR '']'' then Some (Inr (VList (acc @ [v]), r3, p2 + 1))
                  else if e = ch CHR '','' then
                    (let (r4, p4) = skip_ws r3 (p2 + 1)
                     in array_loop ext n (acc @ [v]) r4 p4)
                  else Some (Inl p2)))"

text \<open>
  \<^verbatim>\<open>json.loads(s)\<close>: a byte order mark is refused at 0; blanks around the one value are
  skipped; anything after it is extra data. The result is the value, or the position
  of the error. The scanner gets two units of fuel for each character and one more,
  which is enough (lemma \<open>scan_fuel_enough\<close>).
\<close>

definition loads_with :: "bool \<Rightarrow> pystr \<Rightarrow> nat + pyval" where
  "loads_with ext s =
     (if take 1 s = [0xFEFF] then Inl 0
      else
        (let (r0, p0) = skip_ws s 0
         in case the (scan_once ext (2 * length s + 1) r0 p0) of
              Inl p \<Rightarrow> Inl p
            | Inr (v, r1, p1) \<Rightarrow>
                (let (r2, p2) = skip_ws r1 p1
                 in if r2 = [] then Inr v else Inl p2)))"

definition json_loads :: "pystr \<Rightarrow> nat + pyval" where
  "json_loads s = loads_with True s"

text \<open>A syntactically valid JSON document: a text the decoder accepts without the three
  constants that are not JSON.\<close>

definition valid_json :: "pystr \<Rightarrow> bool" where
  "valid_json s = (case loads_with False s of Inr v \<Rightarrow> True | Inl p \<Rightarrow> False)"

section \<open>The canonical serializer: \<^verbatim>\<open>json.dumps(obj, separators=(',', ':'))\<close>\<close>

text \<open>
  Strings are written in ASCII: the two-character escapes for the quote, the backslash
  and the five control characters that have one, \<open>\uXXXX\<close> for every other character
  outside \<open>' ' .. '~'\<close>, and a surrogate pair beyond the basic plane.
\<close>

definition hex_digit :: "nat \<Rightarrow> pychar" where
  "hex_digit d = (if d < 10 then 48 + d else 87 + d)"

definition u_escape :: "nat \<Rightarrow> pystr" where
  "u_escape n = [ch CHR 0x5C, ch CHR ''u'', hex_digit (n div 4096 mod 16), hex_digit (n div 256 mod 16),
                 hex_digit (n div 16 mod 16), hex_digit (n mod 16)]"

definition escape_char :: "pychar \<Rightarrow> pystr" where
  "escape_char c =
     (if c = ch CHR 0x5C then [ch CHR 0x5C, ch CHR 0x5C]
      else if c = ch CHR 0x22 then [ch CHR 0x5C, ch CHR 0x22]
      else if c = 8 then [ch CHR 0x5C, ch CHR ''b'']
      else if c = 12 then [ch CHR 0x5C, ch CHR ''f'']
      else if c = 10 then [ch CHR 0x5C, ch CHR ''n'']
      else if c = 13 then [ch CHR 0x5C, ch CHR ''r'']
      else if c = 9 then [ch CHR 0x5C, ch CHR ''t'']
      else if 32 \<le> c \<and> c \<le> 126 then [c]
      else if c < 0x10000 then u_escape c
      else u_escape (0xD800 + (c - 0x10000) div 1024 mod 1024) @ u_escape (0xDC00 + (c - 0x10000) mod 1024))"

definition encode_string :: "pystr \<Rightarrow> pystr" where
  "encode_string s = [ch CHR 0x22] @ concat (map escape_char s) @ [ch CHR 0x22]"

definition float_json :: "pyfloat \<Rightarrow> pystr" where
  "float_json f =
     (case f of
        FNan \<Rightarrow> py ''NaN''
      | FInf neg \<Rightarrow> (if neg then py ''-Infinity'' else py ''Infinity'')
      | _ \<Rightarrow> float_repr f)"

text \<open>A key that is not a string is written as the string of its JSON form.\<close>

definition key_json :: "pykey \<Rightarrow> pystr" where
  "key_json k =
     (case k of
        KStr s \<Rightarrow> encode_string s
      | KInt i \<Rightarrow> encode_string (str_int i)
      | KFloat f \<Rightarrow> encode_string (float_json f)
      | KBool b \<Rightarrow> encode_string (if b then py ''true'' else py ''false'')
      | KNone \<Rightarrow> encode_string (py ''null''))"

fun join :: "pystr \<Rightarrow> pystr list \<Rightarrow> pystr" where
  "join sep [] = []"
| "join sep [x] = x"
| "join sep (x # y # ys) = x @ sep @ join sep (y # ys)"

fun dumps :: "pyval \<Rightarrow> pystr" where
  "dumps (VDict kvs) =
     py ''{'' @ join (py '','') (map (\<lambda>kv. key_json (fst kv) @ py '':'' @ dumps (snd kv)) kvs) @ py ''}''"
| "dumps (VList xs) = py ''['' @ join (py '','') (map dumps xs) @ py '']''"
| "dumps (VStr s) = encode_string s"
| "dumps (VInt i) = str_int i"
| "dumps (VFloat f) = float_json f"
| "dumps (VBool b) = (if b then py ''true'' else py ''false'')"
| "dumps VNone = py ''null''"

subsection \<open>Scanning consumes the text\<close>

text \<open>A scan that returns, and leaves less of the text than it was given (or no more).\<close>

definition shorter :: "pystr \<Rightarrow> scan_result option \<Rightarrow> bool" where
  "shorter cs res = (case res of None \<Rightarrow> False | Some (Inl p) \<Rightarrow> True
                     | Some (Inr (v, rest, p)) \<Rightarrow> length rest < length cs)"

definition not_longer :: "pystr \<Rightarrow> scan_result option \<Rightarrow> bool" where
  "not_longer cs res = (case res of None \<Rightarrow> False | Some (Inl p) \<Rightarrow> True
                     | Some (Inr (v, rest, p)) \<Rightarrow> length rest \<le> length cs)"

section \<open>The repair pipeline\<close>

subsection \<open>\<^verbatim>\<open>_process_chunk\<close>\<close>

definition error_str :: "pyerror \<Rightarrow> pystr" where
  "error_str ex = (case ex of AttributeError m \<Rightarrow> m | IndexError m \<Rightarrow> m | TypeError m \<Rightarrow> m | ValueError m \<Rightarrow> m)"

definition set_fixed :: "fixer \<Rightarrow> pystr \<Rightarrow> fixer" where
  "set_fixed fx s = fx\<lparr>result := map_option (\<lambda>r. r\<lparr>fixed := s\<rparr>) (result fx)\<rparr>"

definition is_container :: "pyval \<Rightarrow> bool" where
  "is_container v = (case v of VDict _ \<Rightarrow> True | VList _ \<Rightarrow> True | _ \<Rightarrow> False)"

text \<open>\<^verbatim>\<open>_save_failure\<close> writes the text to \<^verbatim>\<open>debug/failed_json.txt\<close>.\<close>

definition save_failure :: "fixer \<Rightarrow> pystr \<Rightarrow> fixer" where
  "save_failure fx failed = fx\<lparr>failure_file := Some failed\<rparr>"

text \<open>
  The method returns \<^verbatim>\<open>self.result\<close>, or raises. The strict parse stands in a \<^verbatim>\<open>try\<close>
  whose handler reads \<^verbatim>\<open>rough[e.pos]\<close>: at a position past the last character that is
  an \<^verbatim>\<open>IndexError\<close>, raised outside the inner \<^verbatim>\<open>try\<close>.
\<close>

definition process_chunk :: "fixer \<Rightarrow> pystr \<Rightarrow> (pyerror + json_results) \<times> fixer" where
  "process_chunk fx chunk =
     (let original = chunk;
          rough0 = strip chunk;
          fx1 = fx\<lparr>result := Some (JsonResults original rough0)\<rparr>;
          fx2 = structural_scan fx1 rough0;
          rough = trimmed_window rough0
      in case json_loads rough of
           Inr parsed \<Rightarrow>
             (let fx3 = set_fixed fx2 (dumps parsed) in (Inr (the (result fx3)), fx3))
         | Inl pos \<Rightarrow>
             if pos < length rough then
               (let fx3 = track_error fx2 [rough ! pos] (int pos)
                in case cached_parse fx3 rough of
                     (Inr parsed, fx4) \<Rightarrow>
                       (let fx5 = set_fixed fx4 (if is_container parsed then dumps parsed else py_str parsed)
                        in (Inr (the (result fx5)), fx5))
                   | (Inl ex, fx4) \<Rightarrow>
                       (let fx5 = track_error fx4 (error_str ex) (- 1);
                            fx6 = save_failure fx5 rough
                        in (Inl (ValueError (py ''Failed to parse JSON'')), fx6)))
             else (Inl (IndexError (py ''string index out of range'')), fx2))"

subsection \<open>Large inputs\<close>

text \<open>\<^verbatim>\<open>[text[i:i + chunk_size] for i in range(0, len(text), chunk_size)]\<close>, for a positive
  \<^verbatim>\<open>chunk_size\<close> (the code calls it with 5000 only).\<close>

definition split_into_chunks :: "pystr \<Rightarrow> nat \<Rightarrow> pystr list" where
  "split_into_chunks text chunk_size =
     map (\<lambda>k. py_slice text (int (k * chunk_size)) (int (k * chunk_size + chunk_size)))
       [0..<(length text + chunk_size - 1) div chunk_size]"

definition process_json_chunk :: "pystr \<Rightarrow> pyval" where
  "process_json_chunk chunk = (case json_loads chunk of Inr v \<Rightarrow> v | Inl pos \<Rightarrow> VDict [])"

text \<open>
  \<^verbatim>\<open>merged.update(chunk)\<close>: the entries of a dictionary are set one by one; any other
  iterable must yield sequences of length two, taken as key and value (a string yields
  its characters, a dictionary its keys); a value that is not iterable is a
  \<^verbatim>\<open>TypeError\<close>.
\<close>

definition value_of_key :: "pykey \<Rightarrow> pyval" where
  "value_of_key k =
     (case k of KStr s \<Rightarrow> VStr s | KInt i \<Rightarrow> VInt i | KFloat f \<Rightarrow> VFloat f | KBool b \<Rightarrow> VBool b
      | KNone \<Rightarrow> VNone)"

definition wrong_length :: "nat \<Rightarrow> nat \<Rightarrow> pyerror" where
  "wrong_length i n = ValueError (py ''dictionary update sequence element #'' @ str_int (int i) @
       py '' has length '' @ str_int (int n) @ py ''; 2 is required'')"

definition pair_of_item :: "nat \<Rightarrow> pyval \<Rightarrow> pyerror + (pyval \<times> pyval)" where
  "pair_of_item i item =
     (case item of
        VList xs \<Rightarrow> (case xs of [k, v] \<Rightarrow> Inr (k, v) | _ \<Rightarrow> Inl (wrong_length i (length xs)))
      | VStr s \<Rightarrow> (case s of [k, v] \<Rightarrow> Inr (VStr [k], VStr [v]) | _ \<Rightarrow> Inl (wrong_length i (length s)))
      | VDict kvs \<Rightarrow>
          (case kvs of [(k, _), (v, _)] \<Rightarrow> Inr (value_of_key k, value_of_key v)
           | _ \<Rightarrow> Inl (wrong_length i (length kvs)))
      | _ \<Rightarrow> Inl (TypeError (py ''cannot convert dictionary update sequence element #'' @
                  str_int (int i) @ py '' to a sequence'')))"

fun update_from_seq :: "nat \<Rightarrow> (pykey \<times> pyval) list \<Rightarrow> pyval list \<Rightarrow> pyerror + (pykey \<times> pyval) list" where
  "update_from_seq i d [] = Inr d"
| "update_from_seq i d (item # items) =
     (case pair_of_item i item of
        Inl e \<Rightarrow> Inl e
      | Inr (k, v) \<Rightarrow>
          (case key_of k of
             None \<Rightarrow> Inl (unhashable k)
           | Some key \<Rightarrow> update_from_seq (i + 1) (dict_set d key v) items))"

definition dict_update :: "(pykey \<times> pyval) list \<Rightarrow> pyval \<Rightarrow> pyerror + (pykey \<times> pyval) list" where
  "dict_update merged chunk =
     (case chunk of
        VDict kvs \<Rightarrow> Inr (foldl (\<lambda>d kv. dict_set d (fst kv) (snd kv)) merged kvs)
      | VList items \<Rightarrow> update_from_seq 0 merged items
      | VStr s \<Rightarrow> update_from_seq 0 merged (map (\<lambda>c. VStr [c]) s)
      | _ \<Rightarrow> Inl (TypeError ([ch CHR 0x27] @ type_name chunk @ [ch CHR 0x27] @ py '' object is not iterable'')))"

fun merge_chunks :: "(pykey \<times> pyval) list \<Rightarrow> pyval list \<Rightarrow> pyerror + (pykey \<times> pyval) list" where
  "merge_chunks merged [] = Inr merged"
| "merge_chunks merged (chunk # parsed_chunks) =
     (case dict_update merged chunk of
        Inl e \<Rightarrow> Inl e
      | Inr merged1 \<Rightarrow> merge_chunks merged1 parsed_chunks)"

subsection \<open>\<^verbatim>\<open>load_json\<close>\<close>

text \<open>The worker pool of the large-input path maps \<^verbatim>\<open>_process_json_chunk\<close> over the
  windows and keeps their order; the model maps it in place.\<close>

definition load_json :: "fixer \<Rightarrow> pystr \<Rightarrow> (pyerror + json_results) \<times> fixer" where
  "load_json fx text =
     (if length text > 10000 then
        (let chunks = split_into_chunks text 5000;
             parsed_chunks = map process_json_chunk chunks
         in case merge_chunks [] parsed_chunks of
              Inl e \<Rightarrow> (Inl e, fx)
            | Inr merged \<Rightarrow> (Inr (JsonResults text (dumps (VDict merged))), fx))
      else process_chunk fx text)"

section \<open>Canonical text\<close>



section \<open>The trimmed window\<close>

lemma count_pos: "count_list s c = length (positions_of c s)"
  unfolding positions_of_def
proof (induction s rule: rev_induct)
  case Nil thus ?case by simp
next
  case (snoc x xs)
  have "filter (\<lambda>p. (xs @ [x]) ! p = c) [0..<length xs] = filter (\<lambda>p. xs ! p = c) [0..<length xs]"
    by (rule filter_cong) (auto simp: nth_append)
  with snoc show ?case by (auto simp: nth_append)
qed

lemma positions_of_Cons:
  "positions_of c (x # xs) = (if x = c then [0] else []) @ map Suc (positions_of c xs)"
proof -
  have "[0..<length (x # xs)] = 0 # map Suc [0..<length xs]"
    by (simp add: upt_conv_Cons map_Suc_upt del: upt_Suc)
  then show ?thesis
    unfolding positions_of_def by (simp add: filter_map comp_def del: upt_Suc)
qed

lemma positions_of_Nil [simp]: "positions_of c [] = []"
  by (simp add: positions_of_def)

lemma find_from_positions:
  "find_from i c s = (case positions_of c s of [] \<Rightarrow> -1 | p # _ \<Rightarrow> int (i + p))"
  by (induction s arbitrary: i) (auto simp: positions_of_Cons split: list.splits)

lemma rfind_from_positions:
  "rfind_from i c s = (if positions_of c s = [] then -1 else int (i + last (positions_of c s)))"
  by (induction s arbitrary: i) (auto simp: positions_of_Cons Let_def last_map)

lemma positions_of_bound: "p \<in> set (positions_of c s) \<Longrightarrow> p < length s"
  by (auto simp: positions_of_def)

lemma span_filter: "j < n \<Longrightarrow> filter (\<lambda>p. i \<le> p \<and> p \<le> j) [0..<n] = [i..<Suc j]"
  by (rule sorted_distinct_set_unique) (auto simp: sorted_wrt_filter simp del: upt_Suc)

lemma slice_span:
  assumes "i < length s" "j < length s"
  shows "py_slice s (int i) (int j + 1) = map (\<lambda>p. s ! p) (filter (\<lambda>p. i \<le> p \<and> p \<le> j) [0..<length s])"
proof -
  have a: "clip_bound (length s) (int i) = i" using assms by (simp add: clip_bound_def)
  have b: "clip_bound (length s) (int j + 1) = Suc j" using assms by (simp add: clip_bound_def nat_add_distrib)
  have "take (Suc j - i) (drop i s) = take (Suc j - i) (drop i (map (\<lambda>p. s ! p) [0..<length s]))"
    by (simp add: map_nth)
  also have "\<dots> = map (\<lambda>p. s ! p) (take (Suc j - i) (drop i [0..<length s]))"
    by (simp only: drop_map take_map)
  also have "\<dots> = map (\<lambda>p. s ! p) [i..<Suc j]"
    using assms by (cases "i \<le> Suc j") (simp_all del: upt_Suc)
  finally show ?thesis
    using assms by (simp add: py_slice_def a b span_filter del: upt_Suc)
qed

lemma slice_to_zero: "py_slice s a 0 = []"
  by (simp add: py_slice_def clip_bound_def)

lemma span_window:
  assumes "positions_of a s \<noteq> []"
  shows "py_slice s (py_find s a) (py_rfind s b + 1) = inclusive_span s (positions_of a s) (positions_of b s)"
proof (cases "positions_of b s = []")
  case True
  then show ?thesis
    by (simp add: py_rfind_def rfind_from_positions slice_to_zero inclusive_span_def)
next
  case False
  from assms have i: "py_find s a = int (hd (positions_of a s))"
    by (cases "positions_of a s") (auto simp: py_find_def find_from_positions)
  from False have j: "py_rfind s b = int (last (positions_of b s))"
    by (simp add: py_rfind_def rfind_from_positions)
  have "hd (positions_of a s) < length s"
    using assms positions_of_bound [of "hd (positions_of a s)" a s] by simp
  moreover have "last (positions_of b s) < length s"
    using False positions_of_bound [of "last (positions_of b s)" b s] by simp
  ultimately show ?thesis
    using assms False by (simp add: i j slice_span inclusive_span_def)
qed

text \<open>
  Claim C8. For every text, the window that \<^verbatim>\<open>_process_chunk\<close> cuts after the scan is
  the one the specification describes: with strictly more \<open>[\<close> than \<open>{\<close>, the
  characters from the first \<open>[\<close> to the last \<open>]\<close>, both included; otherwise, with at
  least one \<open>{\<close> and one \<open>}\<close>, the characters from the first \<open>{\<close> to the last
  \<open>}\<close>; otherwise the text unchanged. Where the closer is missing or stands only
  before the first opener, no position lies in the span and the window is empty.
\<close>

theorem trimmed_window_is_spec: "trimmed_window s = window_spec s"
proof -
  have 1: "has_array_before_object s \<Longrightarrow> positions_of (ch CHR ''['') s \<noteq> []"
    by (auto simp: has_array_before_object_def count_pos)
  show ?thesis
    unfolding trimmed_window_def window_spec_def
    using 1 by (auto simp: span_window has_array_before_object_def has_minimum_one_brace_def count_pos Suc_le_eq)
qed

theorem trimmed_window_is_spec_witness:
  "window_spec (py ''ab[[1,{2}]cd]e'') = py ''[[1,{2}]cd]'' \<and>
   window_spec (py ''x{1}y'') = py ''{1}'' \<and>
   window_spec (py ''[1,2'') = []"
  using trimmed_window_is_spec [of "py ''ab[[1,{2}]cd]e''", symmetric]
    trimmed_window_is_spec [of "py ''x{1}y''", symmetric]
    trimmed_window_is_spec [of "py ''[1,2''", symmetric]
  by (simp add: trimmed_window_def has_minimum_one_brace_def
      has_array_before_object_def py_slice_def py_find_def py_rfind_def clip_bound_def)

section \<open>The colon rule of the structural scan\<close>

lemma add_error_lookup:
  "map_of (errors (add_error r c p)) c = Some ((case map_of (errors r) c of None \<Rightarrow> [] | Some ps \<Rightarrow> ps) @ [p])"
proof -
  have a: "map_of (map (\<lambda>(k, ps). if k = c then (k, ps @ [p]) else (k, ps)) es) c
        = map_option (\<lambda>ps. ps @ [p]) (map_of es c)" for es
    by (induction es) auto
  show ?thesis
    by (auto simp: add_error_def Let_def a map_of_append map_add_def split: option.splits)
qed

lemma add_error_changes: "add_error r c p \<noteq> r"
proof
  assume "add_error r c p = r"
  then have "map_of (errors (add_error r c p)) c = map_of (errors r) c" by simp
  then show False by (simp add: add_error_lookup split: option.splits)
qed

lemma track_error_result:
  "result fx = Some r \<Longrightarrow> result (track_error fx c p) = Some (add_error r c p)"
  by (simp add: track_error_def Let_def)

text \<open>
  Claim C9, as the code has it. At a \<open>:\<close> outside quotes the scan records the \<open>:\<close>
  at its position exactly when \<^verbatim>\<open>key_mode\<close> is false there (a second colon before
  the next comma or brace), leaves the error map as it is when \<^verbatim>\<open>key_mode\<close> is
  true, and clears \<^verbatim>\<open>key_mode\<close> in both cases.
\<close>

theorem colon_records_when_not_key_mode:
  assumes "quote_stack st = []" and "result fx = Some r"
    and "scan_step i (ch CHR '':'') (st, fx) = (st', fx')"
  shows "\<not> key_mode st' \<and>
         (result fx' = Some (add_error r [ch CHR '':''] (int i)) \<longleftrightarrow> \<not> key_mode st) \<and>
         (result fx' = Some r \<longleftrightarrow> key_mode st)"
  using assms add_error_changes [of r "[ch CHR '':'']" "int i"]
  by (auto simp: scan_step_def STRING_DELIMITERS_def track_error_result split: if_splits)


theorem colon_records_when_not_key_mode_witness:
  "result (snd (scan_step 1 (ch CHR '':'')
      (scan_init\<lparr>key_mode := False\<rparr>,
       (JsonFixer False)\<lparr>result := Some (JsonResults (py ''::'') (py ''::''))\<rparr>)))
   = Some (add_error (JsonResults (py ''::'') (py ''::'')) (py '':'') 1)"
  using colon_records_when_not_key_mode
    [of "scan_init\<lparr>key_mode := False\<rparr>"
        "(JsonFixer False)\<lparr>result := Some (JsonResults (py ''::'') (py ''::''))\<rparr>"
        "JsonResults (py ''::'') (py ''::'')" 1
        "fst (scan_step 1 (ch CHR '':'') (scan_init\<lparr>key_mode := False\<rparr>,
           (JsonFixer False)\<lparr>result := Some (JsonResults (py ''::'') (py ''::''))\<rparr>))"
        "snd (scan_step 1 (ch CHR '':'') (scan_init\<lparr>key_mode := False\<rparr>,
           (JsonFixer False)\<lparr>result := Some (JsonResults (py ''::'') (py ''::''))\<rparr>))"]
  by (simp add: scan_init_def JsonFixer_def)

text \<open>
  The claim as written (an error exactly when \<^verbatim>\<open>key_mode\<close> is true) fails at the first
  colon of \<open>::\<close>: \<^verbatim>\<open>key_mode\<close> is true there and nothing is recorded; the scan of the
  whole text records only the second colon, at position 1.
\<close>

theorem colon_with_key_mode_records_nothing:
  "key_mode scan_init \<and> quote_stack scan_init = [] \<and>
   result (snd (scan_step 0 (ch CHR '':'')
     (scan_init, (JsonFixer False)\<lparr>result := Some (JsonResults (py ''::'') (py ''::''))\<rparr>)))
     = Some (JsonResults (py ''::'') (py ''::'')) \<and>
   map_option errors (result (structural_scan
     ((JsonFixer False)\<lparr>result := Some (JsonResults (py ''::'') (py ''::''))\<rparr>) (py ''::'')))
     = Some [(py '':'', [1])]"
  by (simp add: scan_init_def scan_step_def STRING_DELIMITERS_def JsonFixer_def JsonResults_def
      structural_scan_def track_error_def add_error_def)

section \<open>Character classes on ASCII\<close>

lemma in_ranges_below: "list_all (\<lambda>(a, b). c < a) rs \<Longrightarrow> \<not> in_ranges c rs"
  by (induction rs) auto

lemma list_all_lower_mono:
  "list_all (\<lambda>(a, b). (k::nat) \<le> a) rs \<Longrightarrow> c < k \<Longrightarrow> list_all (\<lambda>(a, b). c < a) rs"
  by (induction rs) auto

lemma alpha_ranges_hi_lower: "list_all (\<lambda>(a, b). 170 \<le> a) alpha_ranges_hi"
  by (simp add: alpha_ranges_hi_def)

lemma digit_ranges_hi_lower: "list_all (\<lambda>(a, b). 178 \<le> a) digit_ranges_hi"
  by (simp add: digit_ranges_hi_def)

lemma isalpha_ascii: "c < 170 \<Longrightarrow> isalpha c = ((65 \<le> c \<and> c \<le> 90) \<or> (97 \<le> c \<and> c \<le> 122))"
  using in_ranges_below [OF list_all_lower_mono [OF alpha_ranges_hi_lower]]
  by (simp add: isalpha_def)

lemma isdigit_ascii: "c < 178 \<Longrightarrow> isdigit c = (48 \<le> c \<and> c \<le> 57)"
  using in_ranges_below [OF list_all_lower_mono [OF digit_ranges_hi_lower]]
  by (simp add: isdigit_def)

lemma isspace_ascii: "c < 133 \<Longrightarrow> isspace c = ((9 \<le> c \<and> c \<le> 13) \<or> (28 \<le> c \<and> c \<le> 32))"
  by (auto simp: isspace_def)

section \<open>The tolerant parser terminates\<close>

lemma track_error_frame [simp]:
  "index (track_error fx c p) = index fx" "json_str (track_error fx c p) = json_str fx"
  by (simp_all add: track_error_def Let_def split: option.splits)

lemma string_loop_ge: "string_loop q qc cs i s e = (i', s', f) \<Longrightarrow> i \<le> i'"
proof (induction q qc cs i s e rule: string_loop.induct)
  case (1 q qc i s e)
  then show ?case by simp
next
  case (2 q qc c rest i s e)
  then show ?case by (fastforce split: if_splits)
qed

lemma parse_string_frame:
  assumes "parse_string fx = (r, fx')"
  shows "json_str fx' = json_str fx \<and> index fx \<le> index fx'"
proof (cases "index fx \<ge> length (json_str fx)")
  case True
  with assms show ?thesis by (simp add: parse_string_def)
next
  case False
  obtain i1 s1 f1 where l: "string_loop ([json_str fx ! index fx] \<in> set STRING_DELIMITERS) (json_str fx ! index fx)
      (drop (if [json_str fx ! index fx] \<in> set STRING_DELIMITERS then index fx + 1 else index fx) (json_str fx))
      (if [json_str fx ! index fx] \<in> set STRING_DELIMITERS then index fx + 1 else index fx) [] False = (i1, s1, f1)"
    by (metis prod_cases3)
  from string_loop_ge [OF l] have "index fx \<le> i1" by (simp split: if_splits)
  with assms False l show ?thesis
    by (auto simp: parse_string_def Let_def split: option.splits if_splits)
qed

lemma parse_string_progress:
  assumes "parse_string fx = (r, fx')" "index fx < length (json_str fx)"
    and "[json_str fx ! index fx] \<in> set STRING_DELIMITERS \<or> isalpha (json_str fx ! index fx)"
  shows "index fx < index fx'"
proof (cases "[json_str fx ! index fx] \<in> set STRING_DELIMITERS")
  case True
  obtain i1 s1 f1 where l: "string_loop True (json_str fx ! index fx)
      (drop (index fx + 1) (json_str fx)) (index fx + 1) [] False = (i1, s1, f1)"
    by (metis prod_cases3)
  from string_loop_ge [OF l] have "index fx < i1" by simp
  with assms True l show ?thesis
    by (auto simp: parse_string_def Let_def split: option.splits if_splits)
next
  case False
  let ?c = "json_str fx ! index fx"
  from False assms have a: "isalpha ?c" by simp
  have notsep: "?c \<noteq> 92 \<and> ?c \<notin> set (py '',:]}'')"
  proof (cases "?c < 170")
    case True
    with a show ?thesis by (auto simp: isalpha_ascii)
  next
    case False
    then show ?thesis by auto
  qed
  have d: "drop (index fx) (json_str fx) = ?c # drop (Suc (index fx)) (json_str fx)"
    using assms(2) by (simp add: Cons_nth_drop_Suc)
  obtain i1 s1 f1 where l: "string_loop False ?c (drop (Suc (index fx)) (json_str fx)) (index fx + 1) [?c] False = (i1, s1, f1)"
    by (metis prod_cases3)
  from string_loop_ge [OF l] have "index fx < i1" by simp
  with assms False l d notsep show ?thesis
    by (auto simp: parse_string_def Let_def strip_def strip_chars_def split: option.splits if_splits)
qed

lemma parse_number_frame:
  assumes "parse_number fx = (r, fx')"
  shows "json_str fx' = json_str fx \<and> index fx \<le> index fx'"
  using assms by (auto simp: parse_number_def Let_def)

lemma parse_number_progress:
  assumes "parse_number fx = (r, fx')" "index fx < length (json_str fx)"
    and "isdigit (json_str fx ! index fx) \<or> json_str fx ! index fx \<in> set (py ''.-'')"
  shows "index fx < index fx'"
proof -
  have d: "drop (index fx) (json_str fx) = json_str fx ! index fx # drop (Suc (index fx)) (json_str fx)"
    using assms(2) by (simp add: Cons_nth_drop_Suc)
  have "number_char (json_str fx ! index fx)" using assms(3) by (auto simp: number_char_def)
  with assms d show ?thesis by (auto simp: parse_number_def Let_def)
qed


lemma returns_shift:
  "returns fx1 res \<Longrightarrow> json_str fx1 = json_str fx \<Longrightarrow> index fx \<le> index fx1 \<Longrightarrow> returns fx res"
  by (auto simp: returns_def split: option.splits)

lemma advances_shift:
  "returns fx1 res \<Longrightarrow> json_str fx1 = json_str fx \<Longrightarrow> index fx < index fx1 \<Longrightarrow> advances fx res"
  by (auto simp: returns_def advances_def split: option.splits)

lemma advances_returns: "advances fx res \<Longrightarrow> returns fx res"
  by (auto simp: returns_def advances_def split: option.splits)

lemma remaining_step:
  "json_str fx1 = json_str fx \<Longrightarrow> index fx < index fx1 \<Longrightarrow> index fx < length (json_str fx)
   \<Longrightarrow> remaining fx1 < remaining fx"
  by (simp add: remaining_def)

lemma remaining_mono:
  "json_str fx1 = json_str fx \<Longrightarrow> index fx \<le> index fx1 \<Longrightarrow> remaining fx1 \<le> remaining fx"
  by (simp add: remaining_def)

lemma parse_step:
  assumes IHp: "\<And>fx. 3 * remaining fx + 1 \<le> n \<Longrightarrow> advances fx (parse_fuel n fx)"
    and IHo: "\<And>fx obj ek ck. 3 * remaining fx + (if ek then 1 else 0) + 2 \<le> n
               \<Longrightarrow> returns fx (parse_object_fuel n fx obj ek ck)"
    and IHa: "\<And>fx arr. 3 * remaining fx + 2 \<le> n \<Longrightarrow> returns fx (parse_array_fuel n fx arr)"
    and b: "3 * remaining fx + 1 \<le> Suc n"
  shows "advances fx (parse_fuel (Suc n) fx)"
proof (cases "index fx < length (json_str fx)")
  case False
  then show ?thesis by (simp add: advances_def)
next
  case True
  let ?fx1 = "fx\<lparr>index := index fx + 1\<rparr>"
  have r1: "remaining ?fx1 < remaining fx" using True by (simp add: remaining_def)
  have p: "advances fx (parse_fuel n ?fx1)"
    by (rule advances_shift [OF advances_returns [OF IHp]]) (use r1 b in auto)
  have ob: "advances fx (parse_object_fuel n ?fx1 [] True None)"
    by (rule advances_shift [OF IHo]) (use r1 b in auto)
  have ar: "advances fx (parse_array_fuel n ?fx1 [])"
    by (rule advances_shift [OF IHa]) (use r1 b in auto)
  have s: "[json_str fx ! index fx] \<in> set STRING_DELIMITERS \<or> isalpha (json_str fx ! index fx)
           \<Longrightarrow> advances fx (Some (parse_string fx))"
    using parse_string_frame [of fx] parse_string_progress [of fx] True
    by (cases "parse_string fx") (auto simp: advances_def)
  have nm: "isdigit (json_str fx ! index fx) \<or> json_str fx ! index fx \<in> set (py ''.-'')
           \<Longrightarrow> advances fx (Some (parse_number fx))"
    using parse_number_frame [of fx] parse_number_progress [of fx] True
    by (cases "parse_number fx") (auto simp: advances_def)
  show ?thesis
    using True p ob ar s nm by (simp add: Let_def)
qed


lemma object_step:
  assumes IHp: "\<And>fx. 3 * remaining fx + 1 \<le> n \<Longrightarrow> advances fx (parse_fuel n fx)"
    and IHo: "\<And>fx obj ek ck. 3 * remaining fx + (if ek then 1 else 0) + 2 \<le> n
               \<Longrightarrow> returns fx (parse_object_fuel n fx obj ek ck)"
    and b: "3 * remaining fx + (if ek then 1 else 0) + 2 \<le> Suc n"
  shows "returns fx (parse_object_fuel (Suc n) fx obj ek ck)"
proof (cases "index fx < length (json_str fx)")
  case False
  then show ?thesis by (simp add: returns_def)
next
  case True
  let ?c = "json_str fx ! index fx"
  let ?fx1 = "fx\<lparr>index := index fx + 1\<rparr>"
  have r1: "remaining ?fx1 < remaining fx" using True by (simp add: remaining_def)
  have skip: "returns fx (parse_object_fuel n ?fx1 obj ek ck)"
    by (rule returns_shift [OF IHo]) (use r1 b in auto)
  show ?thesis
  proof (cases "isspace ?c \<or> ?c = ch CHR '',''")
    case True
    with \<open>index fx < length (json_str fx)\<close> skip show ?thesis by (simp add: Let_def)
  next
    case nsp: False
    show ?thesis
    proof (cases "?c = ch CHR ''}''")
      case True
      with \<open>index fx < length (json_str fx)\<close> nsp show ?thesis by (simp add: Let_def returns_def)
    next
      case nbr: False
      show ?thesis
      proof (cases ek)
        case True
        obtain r1 fx1 where ps: "parse_string fx = (r1, fx1)" by (cases "parse_string fx")
        note fr = parse_string_frame [OF ps]
        have cont: "returns fx (parse_object_fuel n fx1 obj False k)" for k
          by (rule returns_shift [OF IHo]) (use fr b True remaining_mono [of fx1 fx] in auto)
        have ret: "returns fx (Some (x, fx1))" for x
          using fr by (simp add: returns_def)
        show ?thesis
          using \<open>index fx < length (json_str fx)\<close> nsp nbr True ps
          by (simp add: Let_def cont ret split: sum.splits)
      next
        case False
        show ?thesis
        proof (cases "?c = ch CHR '':''")
          case True
          with \<open>index fx < length (json_str fx)\<close> nsp nbr False skip show ?thesis by (simp add: Let_def)
        next
          case ncol: False
          have "advances fx (parse_fuel n fx)" by (rule IHp) (use b False in auto)
          then obtain r1 fx1 where pv: "parse_fuel n fx = Some (r1, fx1)"
            and fr: "json_str fx1 = json_str fx" "index fx < index fx1"
            using \<open>index fx < length (json_str fx)\<close>
            by (auto simp: advances_def split: option.splits)
          have "remaining fx1 < remaining fx"
            using fr \<open>index fx < length (json_str fx)\<close> by (simp add: remaining_def)
          then have cont: "returns fx (parse_object_fuel n fx1 obj' True None)" for obj'
            by (intro returns_shift [OF IHo]) (use fr b False in auto)
          have ret: "returns fx (Some (x, fx1))" for x
            using fr by (simp add: returns_def)
          show ?thesis
            using \<open>index fx < length (json_str fx)\<close> nsp nbr False ncol pv
            by (simp add: Let_def cont ret split: sum.splits option.splits)
        qed
      qed
    qed
  qed
qed

lemma takeWhile_index_le: "i \<le> length s \<Longrightarrow> i + length (takeWhile P (drop i s)) \<le> length s"
  using length_takeWhile_le [of P "drop i s"] by simp

lemma array_step:
  assumes IHp: "\<And>fx. 3 * remaining fx + 1 \<le> n \<Longrightarrow> advances fx (parse_fuel n fx)"
    and IHa: "\<And>fx arr. 3 * remaining fx + 2 \<le> n \<Longrightarrow> returns fx (parse_array_fuel n fx arr)"
    and b: "3 * remaining fx + 2 \<le> Suc n"
  shows "returns fx (parse_array_fuel (Suc n) fx arr)"
proof (cases "index fx < length (json_str fx)")
  case False
  then show ?thesis by (simp add: returns_def)
next
  case True
  let ?i1 = "index fx + length (takeWhile isspace (drop (index fx) (json_str fx)))"
  show ?thesis
  proof (cases "?i1 \<ge> length (json_str fx) \<or> json_str fx ! ?i1 = ch CHR '']''")
    case True
    with \<open>index fx < length (json_str fx)\<close> show ?thesis by (simp add: Let_def returns_def)
  next
    case cont: False
    let ?fxa = "fx\<lparr>index := ?i1\<rparr>"
    have ra: "remaining ?fxa \<le> remaining fx" by (simp add: remaining_def)
    have "advances ?fxa (parse_fuel n ?fxa)" by (rule IHp) (use b ra in auto)
    then obtain r1 fx1 where pv: "parse_fuel n ?fxa = Some (r1, fx1)"
      and fr: "json_str fx1 = json_str fx" "?i1 < index fx1"
      using cont by (auto simp: advances_def split: option.splits)
    let ?i2 = "index fx1 + length (takeWhile (\<lambda>c. isspace c \<or> c = ch CHR '','') (drop (index fx1) (json_str fx1)))"
    have "remaining (fx1\<lparr>index := ?i2\<rparr>) < remaining fx"
      using fr \<open>index fx < length (json_str fx)\<close> by (simp add: remaining_def)
    then have nxt: "returns fx (parse_array_fuel n (fx1\<lparr>index := ?i2\<rparr>) arr')" for arr'
      by (intro returns_shift [OF IHa]) (use fr b in auto)
    have ret: "returns fx (Some (x, fx1))" for x
      using fr by (simp add: returns_def)
    show ?thesis
      using \<open>index fx < length (json_str fx)\<close> cont pv nxt
      by (simp add: Let_def ret split: sum.splits option.splits)
  qed
qed

lemma fuel_enough:
  "(\<forall>fx. 3 * remaining fx + 1 \<le> n \<longrightarrow> advances fx (parse_fuel n fx)) \<and>
   (\<forall>fx obj ek ck. 3 * remaining fx + (if ek then 1 else 0) + 2 \<le> n
       \<longrightarrow> returns fx (parse_object_fuel n fx obj ek ck)) \<and>
   (\<forall>fx arr. 3 * remaining fx + 2 \<le> n \<longrightarrow> returns fx (parse_array_fuel n fx arr))"
proof (induction n)
  case 0
  show ?case by simp
next
  case (Suc n)
  show ?case
    using parse_step [of n] object_step [of n] array_step [of n] Suc by blast
qed


lemma parse_fuel_advances: "3 * remaining fx + 1 \<le> n \<Longrightarrow> advances fx (parse_fuel n fx)"
  using fuel_enough [of n] by blast

lemma parse_object_fuel_returns:
  "3 * remaining fx + (if ek then 1 else 0) + 2 \<le> n \<Longrightarrow> returns fx (parse_object_fuel n fx obj ek ck)"
  using fuel_enough [of n] by blast

lemma parse_array_fuel_returns:
  "3 * remaining fx + 2 \<le> n \<Longrightarrow> returns fx (parse_array_fuel n fx arr)"
  using fuel_enough [of n] by blast

lemma returns_Some: "returns fx res \<Longrightarrow> \<exists>r fx'. res = Some (r, fx')"
  by (cases res) (auto simp: returns_def)

lemma parse_fuel_Some: "\<exists>r fx'. parse_fuel (3 * remaining fx + 1) fx = Some (r, fx')"
  by (rule returns_Some [OF advances_returns [OF parse_fuel_advances]]) simp

lemma parse_object_fuel_Some:
  "\<exists>r fx'. parse_object_fuel (3 * remaining fx + 3) fx [] True None = Some (r, fx')"
  by (rule returns_Some [OF parse_object_fuel_returns]) simp

lemma parse_array_fuel_Some:
  "\<exists>r fx'. parse_array_fuel (3 * remaining fx + 2) fx [] = Some (r, fx')"
  by (rule returns_Some [OF parse_array_fuel_returns]) simp


text \<open>
  Every call returns: with the fuel the definitions of \<open>parse\<close>, \<open>parse_object\<close> and
  \<open>parse_array\<close> give, the loops end before the fuel does, whatever the text and the
  index, and the index never moves back.
\<close>

theorem parser_terminates:
  "(\<exists>r fx'. parse_fuel (3 * remaining fx + 1) fx = Some (r, fx') \<and> parse fx = (r, fx') \<and>
       json_str fx' = json_str fx \<and> index fx \<le> index fx') \<and>
   (\<exists>r fx'. parse_object_fuel (3 * remaining fx + 3) fx [] True None = Some (r, fx') \<and>
       parse_object fx = (r, fx') \<and> json_str fx' = json_str fx \<and> index fx \<le> index fx') \<and>
   (\<exists>r fx'. parse_array_fuel (3 * remaining fx + 2) fx [] = Some (r, fx') \<and>
       parse_array fx = (r, fx') \<and> json_str fx' = json_str fx \<and> index fx \<le> index fx')"
proof (intro conjI)
  have "advances fx (parse_fuel (3 * remaining fx + 1) fx)"
    by (rule parse_fuel_advances) simp
  then show "\<exists>r fx'. parse_fuel (3 * remaining fx + 1) fx = Some (r, fx') \<and> parse fx = (r, fx') \<and>
       json_str fx' = json_str fx \<and> index fx \<le> index fx'"
    by (cases "parse_fuel (3 * remaining fx + 1) fx") (auto simp: advances_def parse_def)
next
  have "returns fx (parse_object_fuel (3 * remaining fx + 3) fx [] True None)"
    by (rule parse_object_fuel_returns) simp
  then show "\<exists>r fx'. parse_object_fuel (3 * remaining fx + 3) fx [] True None = Some (r, fx') \<and>
       parse_object fx = (r, fx') \<and> json_str fx' = json_str fx \<and> index fx \<le> index fx'"
    by (cases "parse_object_fuel (3 * remaining fx + 3) fx [] True None")
      (auto simp: returns_def parse_object_def)
next
  have "returns fx (parse_array_fuel (3 * remaining fx + 2) fx [])"
    by (rule parse_array_fuel_returns) simp
  then show "\<exists>r fx'. parse_array_fuel (3 * remaining fx + 2) fx [] = Some (r, fx') \<and>
       parse_array fx = (r, fx') \<and> json_str fx' = json_str fx \<and> index fx \<le> index fx'"
    by (cases "parse_array_fuel (3 * remaining fx + 2) fx []")
      (auto simp: returns_def parse_array_def)
qed

section \<open>Evaluating the parsers\<close>

text \<open>The equations that evaluate the parsers and the pipeline on a text of ASCII
  characters: the recursive equations at a numeral of fuel, and the definitions.\<close>

lemmas fuel_numeral =
  scan_once.simps(2) [where n = "pred_numeral k", folded numeral_eq_Suc]
  object_loop.simps(2) [where n = "pred_numeral k", folded numeral_eq_Suc]
  array_loop.simps(2) [where n = "pred_numeral k", folded numeral_eq_Suc]
  parse_fuel.simps(2) [where n = "pred_numeral k", folded numeral_eq_Suc]
  parse_object_fuel.simps(2) [where n = "pred_numeral k", folded numeral_eq_Suc]
  parse_array_fuel.simps(2) [where n = "pred_numeral k", folded numeral_eq_Suc]
  for k

lemmas tolerant_eval =
  parse_def parse_object_def parse_array_def remaining_def JsonFixer_def fuel_numeral
  isalpha_ascii isdigit_ascii isspace_ascii STRING_DELIMITERS_def
  parse_string_def parse_number_def number_char_def strip_def strip_chars_def
  py_int_def number_text_def to_ascii_def ascii_space_def split_sign_def ascii_digit_def
  digits_value_def lower_ascii_def cleanup_string_def truthy_def key_of_def no_strip_def
  type_name_def Let_def

lemmas strict_eval =
  json_loads_def loads_with_def valid_json_def skip_ws_def json_ws_def scan_string_value_def
  scan_constant_def match_number_def number_int_part_def number_frac_part_def number_exp_part_def
  hex4_def hex_value_def simple_escape_def fuel_numeral
  py_int_def py_float_def number_text_def to_ascii_def ascii_space_def split_sign_def ascii_digit_def
  digits_value_def strip_chars_def Let_def

lemmas pipeline_eval =
  load_json_def process_chunk_def strip_def isspace_ascii structural_scan_def scan_init_def scan_step_def
  STRING_DELIMITERS_def expected_closer_def track_error_def add_error_def JsonResults_def
  trimmed_window_def has_array_before_object_def has_minimum_one_brace_def py_slice_def py_find_def
  py_rfind_def clip_bound_def set_fixed_def is_container_def cached_parse_def save_failure_def
  error_str_def py_str_def

section \<open>Nulls in the tolerant parser\<close>

lemma dict_set_good:
  "good_entries kvs \<Longrightarrow> v \<noteq> VNone \<Longrightarrow> no_nulls v \<Longrightarrow> good_entries (dict_set kvs k v)"
  by (induction kvs) (fastforce simp: good_entries_def split: if_splits)+

lemma cleanup_string_str: "cleanup_string (VStr s) b = Inr v \<Longrightarrow> \<exists>t. v = VStr t"
  by (auto simp: cleanup_string_def Let_def truthy_def split: if_splits)

lemma cleanup_string_never_raises_on_str: "\<exists>t. cleanup_string (VStr s) b = Inr (VStr t)"
  by (auto simp: cleanup_string_def Let_def truthy_def split: if_splits)

lemma parse_string_scalar:
  assumes "parse_string fx = (r, fx')"
  shows "\<exists>v. r = Inr v \<and> (\<exists>s. v = VStr s) \<or> (\<exists>i. r = Inr (VInt i)) \<or> (\<exists>f. r = Inr (VFloat f))"
proof (cases "index fx \<ge> length (json_str fx)")
  case True
  with assms show ?thesis by (auto simp: parse_string_def)
next
  case False
  obtain i1 s1 f1 where l: "string_loop ([json_str fx ! index fx] \<in> set STRING_DELIMITERS) (json_str fx ! index fx)
      (drop (if [json_str fx ! index fx] \<in> set STRING_DELIMITERS then index fx + 1 else index fx) (json_str fx))
      (if [json_str fx ! index fx] \<in> set STRING_DELIMITERS then index fx + 1 else index fx) [] False = (i1, s1, f1)"
    by (metis prod_cases3)
  from cleanup_string_never_raises_on_str [of "strip s1" False]
  obtain t where c: "cleanup_string (VStr (strip s1)) False = Inr (VStr t)" by blast
  from assms False l show ?thesis
    by (auto simp: parse_string_def Let_def c split: option.splits if_splits)
qed

lemma parse_string_no_nulls:
  "parse_string fx = (Inr v, fx') \<Longrightarrow> v \<noteq> VNone \<and> no_nulls v"
  using parse_string_scalar [of fx "Inr v" fx'] by auto

lemma parse_number_scalar:
  "parse_number fx = (r, fx') \<Longrightarrow> (\<exists>i. r = Inr (VInt i)) \<or> (\<exists>f. r = Inr (VFloat f))"
  by (auto simp: parse_number_def Let_def split: option.splits if_splits)

lemma parse_number_no_nulls:
  "parse_number fx = (Inr v, fx') \<Longrightarrow> v \<noteq> VNone \<and> no_nulls v"
  using parse_number_scalar [of fx "Inr v" fx'] by auto

lemma nulls_dropped_fuel:
  "(\<forall>fx v fx'. parse_fuel n fx = Some (Inr v, fx') \<longrightarrow> no_nulls v) \<and>
   (\<forall>fx obj ek ck v fx'. parse_object_fuel n fx obj ek ck = Some (Inr v, fx') \<longrightarrow> good_entries obj
       \<longrightarrow> (\<exists>kvs. v = VDict kvs \<and> good_entries kvs)) \<and>
   (\<forall>fx arr v fx'. parse_array_fuel n fx arr = Some (Inr v, fx') \<longrightarrow> good_elems arr
       \<longrightarrow> (\<exists>xs. v = VList xs \<and> good_elems xs))"
proof (induction n)
  case 0
  show ?case by simp
next
  case (Suc n)
  then have IHp: "\<And>fx v fx'. parse_fuel n fx = Some (Inr v, fx') \<Longrightarrow> no_nulls v"
    and IHo: "\<And>fx obj ek ck v fx'. parse_object_fuel n fx obj ek ck = Some (Inr v, fx') \<Longrightarrow> good_entries obj
       \<Longrightarrow> \<exists>kvs. v = VDict kvs \<and> good_entries kvs"
    and IHa: "\<And>fx arr v fx'. parse_array_fuel n fx arr = Some (Inr v, fx') \<Longrightarrow> good_elems arr
       \<Longrightarrow> \<exists>xs. v = VList xs \<and> good_elems xs"
    by blast+
  have p: "no_nulls v" if "parse_fuel (Suc n) fx = Some (Inr v, fx')" for fx v fx'
  proof -
    have e: "good_entries []" "good_elems []" by (simp_all add: good_entries_def good_elems_def)
    from that show ?thesis
      using IHp IHo [OF _ e(1)] IHa [OF _ e(2)] parse_string_no_nulls parse_number_no_nulls
      apply (simp add: Let_def split: if_splits)
           apply (fastforce simp: good_entries_def good_elems_def)+
      done
  qed
  have ob: "\<exists>kvs. v = VDict kvs \<and> good_entries kvs"
    if "parse_object_fuel (Suc n) fx obj ek ck = Some (Inr v, fx')" "good_entries obj" for fx obj ek ck v fx'
    using that IHo IHp dict_set_good
    by (simp add: Let_def split: if_splits prod.splits sum.splits option.splits) blast+
  have ar: "\<exists>xs. v = VList xs \<and> good_elems xs"
    if "parse_array_fuel (Suc n) fx arr = Some (Inr v, fx')" "good_elems arr" for fx arr v fx'
  proof -
    have ext: "good_elems (arr @ [x])" if "x \<noteq> VNone" "no_nulls x" for x
      using that \<open>good_elems arr\<close> by (auto simp: good_elems_def)
    from that show ?thesis
      using IHa IHp ext
      by (simp add: Let_def split: if_splits prod.splits sum.splits option.splits) blast+
  qed
  show ?case using p ob ar by blast
qed


lemma parse_no_nulls_fuel: "parse_fuel n fx = Some (Inr v, fx') \<Longrightarrow> no_nulls v"
  using nulls_dropped_fuel [of n] by blast

lemma parse_object_good_fuel:
  "parse_object_fuel n fx obj ek ck = Some (Inr v, fx') \<Longrightarrow> good_entries obj
   \<Longrightarrow> \<exists>kvs. v = VDict kvs \<and> good_entries kvs"
  using nulls_dropped_fuel [of n] by blast

lemma parse_array_good_fuel:
  "parse_array_fuel n fx arr = Some (Inr v, fx') \<Longrightarrow> good_elems arr
   \<Longrightarrow> \<exists>xs. v = VList xs \<and> good_elems xs"
  using nulls_dropped_fuel [of n] by blast



text \<open>No entry of the object that \<^verbatim>\<open>parse_object\<close> returns and no element of the list
  that \<^verbatim>\<open>parse_array\<close> returns is \<^verbatim>\<open>None\<close>, at any depth.\<close>

lemma tolerant_parse_drops_nulls:
  "(parse_object fx = (Inr v, fx') \<longrightarrow> (\<exists>kvs. v = VDict kvs \<and> VNone \<notin> snd ` set kvs)) \<and>
   (parse_array fx = (Inr v, fx') \<longrightarrow> (\<exists>xs. v = VList xs \<and> VNone \<notin> set xs)) \<and>
   (parse fx = (Inr v, fx') \<longrightarrow> no_nulls v)"
proof (intro conjI impI)
  assume a: "parse_object fx = (Inr v, fx')"
  obtain r fx1 where s: "parse_object_fuel (3 * remaining fx + 3) fx [] True None = Some (r, fx1)"
    using parse_object_fuel_Some by blast
  with a have "parse_object_fuel (3 * remaining fx + 3) fx [] True None = Some (Inr v, fx')"
    by (simp add: parse_object_def)
  moreover have "good_entries []" by (simp add: good_entries_def)
  ultimately obtain kvs where k: "v = VDict kvs" "good_entries kvs"
    using parse_object_good_fuel by blast
  have "VNone \<notin> snd ` set kvs"
    using k(2) by (force simp: good_entries_def)
  with k(1) show "\<exists>kvs. v = VDict kvs \<and> VNone \<notin> snd ` set kvs" by blast
next
  assume a: "parse_array fx = (Inr v, fx')"
  obtain r fx1 where s: "parse_array_fuel (3 * remaining fx + 2) fx [] = Some (r, fx1)"
    using parse_array_fuel_Some by blast
  with a have "parse_array_fuel (3 * remaining fx + 2) fx [] = Some (Inr v, fx')"
    by (simp add: parse_array_def)
  moreover have "good_elems []" by (simp add: good_elems_def)
  ultimately obtain xs where k: "v = VList xs" "good_elems xs"
    using parse_array_good_fuel by blast
  have "VNone \<notin> set xs"
    using k(2) by (force simp: good_elems_def)
  with k(1) show "\<exists>xs. v = VList xs \<and> VNone \<notin> set xs" by blast
next
  assume a: "parse fx = (Inr v, fx')"
  obtain r fx1 where s: "parse_fuel (3 * remaining fx + 1) fx = Some (r, fx1)"
    using parse_fuel_Some by blast
  with a have "parse_fuel (3 * remaining fx + 1) fx = Some (Inr v, fx')"
    by (simp add: parse_def)
  then show "no_nulls v" by (rule parse_no_nulls_fuel)
qed




text \<open>
  Claim C6, as the code has it. In \<^verbatim>\<open>parse_object\<close>, a pair whose value parses to \<^verbatim>\<open>None\<close>
  is not stored: the loop goes on with the object as it was (an entry that an earlier
  pair stored under the same key stays), so no entry of the returned object has the
  value \<^verbatim>\<open>None\<close>. In \<^verbatim>\<open>parse_array\<close>, an element that parses to \<^verbatim>\<open>None\<close> is not
  appended: the loop goes on with the list as it was, so the returned list holds no
  \<^verbatim>\<open>None\<close>.
\<close>

theorem null_valued_pair_is_skipped:
  "(index fx < length (json_str fx) \<and> \<not> isspace (json_str fx ! index fx) \<and>
      json_str fx ! index fx \<notin> {ch CHR '','', ch CHR ''}'', ch CHR '':''} \<and>
      parse_fuel n fx = Some (Inr VNone, fx1)
      \<longrightarrow> parse_object_fuel (Suc n) fx obj False current_key = parse_object_fuel n fx1 obj True None) \<and>
   (index fx < length (json_str fx) \<and>
      i1 = index fx + length (takeWhile isspace (drop (index fx) (json_str fx))) \<and>
      i1 < length (json_str fx) \<and> json_str fx ! i1 \<noteq> ch CHR '']'' \<and>
      parse_fuel n (fx\<lparr>index := i1\<rparr>) = Some (Inr VNone, fx1)
      \<longrightarrow> parse_array_fuel (Suc n) fx arr =
            parse_array_fuel n
              (fx1\<lparr>index := index fx1 + length (takeWhile (\<lambda>c. isspace c \<or> c = ch CHR '','')
                                                  (drop (index fx1) (json_str fx1)))\<rparr>) arr) \<and>
   (parse_object fx = (Inr v, fx') \<longrightarrow> (\<exists>kvs. v = VDict kvs \<and> VNone \<notin> snd ` set kvs)) \<and>
   (parse_array fx = (Inr v, fx') \<longrightarrow> (\<exists>xs. v = VList xs \<and> VNone \<notin> set xs))"
proof (intro conjI impI)
  assume "index fx < length (json_str fx) \<and> \<not> isspace (json_str fx ! index fx) \<and>
      json_str fx ! index fx \<notin> {ch CHR '','', ch CHR ''}'', ch CHR '':''} \<and>
      parse_fuel n fx = Some (Inr VNone, fx1)"
  then show "parse_object_fuel (Suc n) fx obj False current_key = parse_object_fuel n fx1 obj True None"
    by (cases current_key) (simp_all add: Let_def)
next
  assume "index fx < length (json_str fx) \<and>
      i1 = index fx + length (takeWhile isspace (drop (index fx) (json_str fx))) \<and>
      i1 < length (json_str fx) \<and> json_str fx ! i1 \<noteq> ch CHR '']'' \<and>
      parse_fuel n (fx\<lparr>index := i1\<rparr>) = Some (Inr VNone, fx1)"
  then show "parse_array_fuel (Suc n) fx arr =
            parse_array_fuel n
              (fx1\<lparr>index := index fx1 + length (takeWhile (\<lambda>c. isspace c \<or> c = ch CHR '','')
                                                  (drop (index fx1) (json_str fx1)))\<rparr>) arr"
    by (auto simp: Let_def)
next
  assume "parse_object fx = (Inr v, fx')"
  then show "\<exists>kvs. v = VDict kvs \<and> VNone \<notin> snd ` set kvs"
    using tolerant_parse_drops_nulls [of fx v fx'] by blast
next
  assume "parse_array fx = (Inr v, fx')"
  then show "\<exists>xs. v = VList xs \<and> VNone \<notin> set xs"
    using tolerant_parse_drops_nulls [of fx v fx'] by blast
qed

theorem null_valued_pair_is_skipped_witness:
  \<open>parse_object_fuel 3 ((JsonFixer False)\<lparr>json_str := py ''{"a":1,"b":?'', index := 11\<rparr>)
       [(KStr (py ''a''), VInt 1)] False (Some (VStr (py ''b'')))
     = Some (Inr (VDict [(KStr (py ''a''), VInt 1)]),
             (JsonFixer False)\<lparr>json_str := py ''{"a":1,"b":?'', index := 12\<rparr>) \<and>
   parse_array_fuel 3 ((JsonFixer False)\<lparr>json_str := py ''[1,?'', index := 3\<rparr>) [VInt 1]
     = Some (Inr (VList [VInt 1]), (JsonFixer False)\<lparr>json_str := py ''[1,?'', index := 4\<rparr>) \<and>
   fst (parse_object ((JsonFixer False)\<lparr>json_str := py ''{"a":1,"b":?'', index := 1\<rparr>))
     = Inr (VDict [(KStr (py ''a''), VInt 1)]) \<and>
   VNone \<notin> snd ` set [(KStr (py ''a''), VInt 1)] \<and>
   fst (parse_array ((JsonFixer False)\<lparr>json_str := py ''[1,?'', index := 1\<rparr>)) = Inr (VList [VInt 1]) \<and>
   VNone \<notin> set [VInt 1]\<close>
proof -
  have p1: \<open>parse_fuel 2 ((JsonFixer False)\<lparr>json_str := py ''{"a":1,"b":?'', index := 11\<rparr>)
      = Some (Inr VNone, (JsonFixer False)\<lparr>json_str := py ''{"a":1,"b":?'', index := 12\<rparr>)\<close>
    by (simp add: tolerant_eval)
  have p2: \<open>parse_fuel 2 ((JsonFixer False)\<lparr>json_str := py ''[1,?'', index := 3\<rparr>)
      = Some (Inr VNone, (JsonFixer False)\<lparr>json_str := py ''[1,?'', index := 4\<rparr>)\<close>
    by (simp add: tolerant_eval)
  have o: \<open>parse_object ((JsonFixer False)\<lparr>json_str := py ''{"a":1,"b":?'', index := 1\<rparr>)
     = (Inr (VDict [(KStr (py ''a''), VInt 1)]),
        (JsonFixer False)\<lparr>json_str := py ''{"a":1,"b":?'', index := 12\<rparr>)\<close>
    by (simp add: tolerant_eval)
  have a: \<open>parse_array ((JsonFixer False)\<lparr>json_str := py ''[1,?'', index := 1\<rparr>)
     = (Inr (VList [VInt 1]), (JsonFixer False)\<lparr>json_str := py ''[1,?'', index := 4\<rparr>)\<close>
    by (simp add: tolerant_eval)
  show ?thesis
    using null_valued_pair_is_skipped
      [of \<open>(JsonFixer False)\<lparr>json_str := py ''{"a":1,"b":?'', index := 11\<rparr>\<close> 2
          \<open>(JsonFixer False)\<lparr>json_str := py ''{"a":1,"b":?'', index := 12\<rparr>\<close>
          \<open>[(KStr (py ''a''), VInt 1)]\<close> \<open>Some (VStr (py ''b''))\<close>]
      null_valued_pair_is_skipped
      [of \<open>(JsonFixer False)\<lparr>json_str := py ''[1,?'', index := 3\<rparr>\<close> 2
          \<open>(JsonFixer False)\<lparr>json_str := py ''[1,?'', index := 4\<rparr>\<close> _ _ 3 \<open>[VInt 1]\<close>]
      p1 p2 o a
    by (simp add: tolerant_eval)
qed

text \<open>
  The claim as written (the key does not appear in the returned object) fails where an
  earlier pair stored the key: in \<open>{"a":1,"a":?\<close> the value of the second \<open>a\<close>, read
  from index 11, parses to \<^verbatim>\<open>None\<close>, and the object returned still has the key \<open>a\<close>.
\<close>

theorem duplicate_key_stays:
  \<open>fst (parse ((JsonFixer False)\<lparr>json_str := py ''{"a":1,"a":?'', index := 11\<rparr>)) = Inr VNone \<and>
   fst (parse_object ((JsonFixer False)\<lparr>json_str := py ''{"a":1,"a":?'', index := 1\<rparr>))
     = Inr (VDict [(KStr (py ''a''), VInt 1)])\<close>
  by (simp add: tolerant_eval)

section \<open>Where the tolerant parser raises\<close>

lemma parse_string_never_raises: "\<exists>v. fst (parse_string fx) = Inr v"
  using parse_string_scalar [of fx "fst (parse_string fx)" "snd (parse_string fx)"] by auto

lemma parse_number_never_raises: "\<exists>v. fst (parse_number fx) = Inr v"
  using parse_number_scalar [of fx "fst (parse_number fx)" "snd (parse_number fx)"] by auto

text \<open>
  Claim C3 says that \<^verbatim>\<open>parse\<close>, \<^verbatim>\<open>parse_object\<close>, \<^verbatim>\<open>parse_array\<close>, \<^verbatim>\<open>parse_string\<close> and
  \<^verbatim>\<open>parse_number\<close> return a value for every text and every index. They all terminate
  (\<open>parser_terminates\<close>), and the last two never raise, but the first three can: an
  unquoted key that reads as a number other than zero reaches \<^verbatim>\<open>_cleanup_string\<close> as
  an \<^verbatim>\<open>int\<close> or a \<^verbatim>\<open>float\<close>, whose \<^verbatim>\<open>strip\<close> does not exist. On the text \<open>{1: 2}\<close> the
  parse ends in that \<^verbatim>\<open>AttributeError\<close>.
\<close>

theorem numeric_key_raises:
  "fst (parse ((JsonFixer False)\<lparr>json_str := py ''{1: 2}''\<rparr>))
     = Inl (AttributeError ([ch CHR 0x27] @ py ''int'' @ [ch CHR 0x27] @ py '' object has no attribute '' @
              [ch CHR 0x27] @ py ''strip'' @ [ch CHR 0x27]))"
  by (simp add: tolerant_eval)


section \<open>Bare atoms in the tolerant parser\<close>

text \<open>
  Claim C5 says that the bare atoms \<open>true\<close>, \<open>false\<close> and \<open>null\<close>, in any case, become
  booleans and null in the tolerant parse. The parser never calls \<^verbatim>\<open>_is_special_value\<close>:
  a letter starts \<^verbatim>\<open>parse_string\<close>, and the atom comes back as a string. The tolerant
  parse of \<open>[True, null]\<close> is the list of the strings \<open>True\<close> and \<open>null\<close>.
\<close>

theorem bare_atoms_stay_strings:
  "fst (parse ((JsonFixer False)\<lparr>json_str := py ''[True, null]''\<rparr>))
     = Inr (VList [VStr (py ''True''), VStr (py ''null'')])"
  by (simp add: tolerant_eval)

section \<open>The strict scanner terminates\<close>

lemma scanstring_shorter:
  "scanstring b acc cs pos = Inr (s, rest, p) \<Longrightarrow> length rest < length cs"
proof (induction "length cs" arbitrary: acc cs pos rule: less_induct)
  case less
  show ?case
  proof (cases cs)
    case Nil
    with less.prems show ?thesis by simp
  next
    case (Cons c cs')
    have IH: "scanstring b acc' cs2 pos' = Inr (s, rest, p) \<Longrightarrow> length cs2 \<le> length cs'
              \<Longrightarrow> length rest < length cs" for acc' cs2 pos'
      using less.hyps [of cs2 acc' pos'] Cons by simp
    from less.prems Cons show ?thesis
      by (auto split: if_splits list.splits option.splits dest!: IH)
  qed
qed


lemma skip_ws_length: "skip_ws cs pos = (r, p) \<Longrightarrow> length r \<le> length cs"
  using length_dropWhile_le [of json_ws cs] by (auto simp: skip_ws_def)

lemma match_number_pos: "match_number cs = Some (v, k) \<Longrightarrow> 0 < k"
  by (auto simp: match_number_def Let_def split: if_splits)

lemma scan_constant_pos: "scan_constant ext cs = Some (v, k) \<Longrightarrow> 0 < k"
  by (auto simp: scan_constant_def split: if_splits)

lemma scan_string_value_shorter: "shorter (c # r) (Some (scan_string_value r pos))"
  using scanstring_shorter [of pos "[]" r "pos + 1"]
  by (auto simp: shorter_def scan_string_value_def split: sum.splits)

lemma not_longer_shorter: "not_longer r res \<Longrightarrow> length r < length cs \<Longrightarrow> shorter cs res"
  by (auto simp: shorter_def not_longer_def split: option.splits sum.splits)

lemma not_longer_mono: "not_longer r res \<Longrightarrow> length r \<le> length cs \<Longrightarrow> not_longer cs res"
  by (auto simp: not_longer_def split: option.splits sum.splits)

lemma shorter_not_longer: "shorter r res \<Longrightarrow> length r \<le> length cs \<Longrightarrow> not_longer cs res"
  by (auto simp: shorter_def not_longer_def split: option.splits sum.splits)

lemma scan_once_step:
  assumes IHo: "\<And>pairs cs pos. 2 * length cs + 2 \<le> n \<Longrightarrow> not_longer cs (object_loop ext n pairs cs pos)"
    and IHa: "\<And>acc cs pos. 2 * length cs + 2 \<le> n \<Longrightarrow> not_longer cs (array_loop ext n acc cs pos)"
    and b: "2 * length cs + 1 \<le> Suc n"
  shows "shorter cs (scan_once ext (Suc n) cs pos)"
proof (cases cs)
  case Nil
  then show ?thesis by (simp add: shorter_def)
next
  case (Cons c r)
  obtain r1 p1 where sk: "skip_ws r (pos + 1) = (r1, p1)" by (cases "skip_ws r (pos + 1)")
  have l1: "length r1 < length cs" using skip_ws_length [OF sk] Cons by simp
  have ob: "shorter cs (object_loop ext n [] r1 p1)"
    by (rule not_longer_shorter [OF IHo l1]) (use l1 b in simp)
  have ar: "shorter cs (array_loop ext n [] r1 p1)"
    by (rule not_longer_shorter [OF IHa l1]) (use l1 b in simp)
  have st: "shorter cs (Some (scan_string_value r pos))"
    using scan_string_value_shorter Cons by simp
  have e: "shorter cs (Some (Inl q))" for q by (simp add: shorter_def)
  have dr: "shorter cs (Some (Inr (v, drop k cs, pos + k)))" if "0 < k" for k v
    using that Cons by (simp add: shorter_def)
  show ?thesis
  proof (cases "c = ch CHR 0x22")
    case True
    with Cons st show ?thesis by simp
  next
    case nq: False
    show ?thesis
    proof (cases "c = ch CHR ''{''")
      case True
      show ?thesis
      proof (cases r1)
        case Nil
        with Cons True sk e show ?thesis by simp
      next
        case (Cons d r2)
        have "shorter cs (Some (Inr (VDict [], r2, p1 + 1)))"
          using l1 Cons by (simp add: shorter_def)
        with \<open>cs = c # r\<close> True sk Cons ob show ?thesis by simp
      qed
    next
      case nb: False
      show ?thesis
      proof (cases "c = ch CHR ''[''")
        case True
        show ?thesis
        proof (cases r1)
          case Nil
          with Cons True sk e show ?thesis by simp
        next
          case (Cons d r2)
          have "shorter cs (Some (Inr (VList [], r2, p1 + 1)))"
            using l1 Cons by (simp add: shorter_def)
          with \<open>cs = c # r\<close> True sk Cons ar show ?thesis by simp
        qed
      next
        case na: False
        show ?thesis
        proof (cases "scan_constant ext cs")
          case (Some vk)
          then obtain v k where "scan_constant ext cs = Some (v, k)" by (cases vk) auto
          with Cons nq nb na dr [OF scan_constant_pos] show ?thesis by simp
        next
          case None
          show ?thesis
          proof (cases "match_number cs")
            case (Some vk)
            then obtain v k where "match_number cs = Some (v, k)" by (cases vk) auto
            with Cons nq nb na None dr [OF match_number_pos] show ?thesis by simp
          next
            case mn: None
            with Cons nq nb na None e show ?thesis by simp
          qed
        qed
      qed
    qed
  qed
qed


lemma after_value:
  assumes nxt: "\<And>r8 p8. length r8 < length cs \<Longrightarrow> not_longer cs (loop r8 p8)"
    and sk: "skip_ws r5 p5 = (r6, p6)" and l: "length r5 < length cs"
  shows "not_longer cs
     (case r6 of [] \<Rightarrow> Some (Inl p6)
      | e # r7 \<Rightarrow> if e = closer then Some (Inr (v, r7, p6 + 1))
                 else if e = ch CHR '','' then (let (r8, p8) = skip_ws r7 (p6 + 1) in loop r8 p8)
                 else Some (Inl p6))"
proof (cases r6)
  case Nil
  then show ?thesis by (simp add: not_longer_def)
next
  case (Cons e r7)
  have l6: "length r6 \<le> length r5" using skip_ws_length [OF sk] .
  obtain r8 p8 where sk2: "skip_ws r7 (p6 + 1) = (r8, p8)" by (cases "skip_ws r7 (p6 + 1)")
  have "length r8 < length cs" using skip_ws_length [OF sk2] l6 l Cons by simp
  from nxt [OF this] have "not_longer cs (loop r8 p8)" .
  moreover have "not_longer cs (Some (Inr (v, r7, p6 + 1)))"
    using l6 l Cons by (simp add: not_longer_def)
  moreover have "not_longer cs (Some (Inl p6))" by (simp add: not_longer_def)
  ultimately show ?thesis using Cons sk2 by simp
qed

lemma array_loop_step:
  assumes IHs: "\<And>cs pos. 2 * length cs + 1 \<le> n \<Longrightarrow> shorter cs (scan_once ext n cs pos)"
    and IHa: "\<And>acc cs pos. 2 * length cs + 2 \<le> n \<Longrightarrow> not_longer cs (array_loop ext n acc cs pos)"
    and b: "2 * length cs + 2 \<le> Suc n"
  shows "not_longer cs (array_loop ext (Suc n) acc cs pos)"
proof -
  have s: "shorter cs (scan_once ext n cs pos)" by (rule IHs) (use b in simp)
  show ?thesis
  proof (cases "scan_once ext n cs pos")
    case None
    with s show ?thesis by (simp add: shorter_def)
  next
    case (Some res)
    show ?thesis
    proof (cases res)
      case (Inl q)
      with Some show ?thesis by (simp add: not_longer_def)
    next
      case (Inr x)
      then obtain v r1 p1 where x: "res = Inr (v, r1, p1)" by (cases x) auto
      with s Some have l: "length r1 < length cs" by (simp add: shorter_def)
      obtain r2 p2 where sk: "skip_ws r1 p1 = (r2, p2)" by (cases "skip_ws r1 p1")
      have nxt: "not_longer cs (array_loop ext n (acc @ [v]) r8 p8)" if "length r8 < length cs" for r8 p8
        by (rule not_longer_mono [OF IHa]) (use that b in auto)
      from after_value [where loop = "array_loop ext n (acc @ [v])", OF nxt sk l]
      show ?thesis using Some x sk by simp
    qed
  qed
qed

lemma object_loop_step:
  assumes IHs: "\<And>cs pos. 2 * length cs + 1 \<le> n \<Longrightarrow> shorter cs (scan_once ext n cs pos)"
    and IHo: "\<And>pairs cs pos. 2 * length cs + 2 \<le> n \<Longrightarrow> not_longer cs (object_loop ext n pairs cs pos)"
    and b: "2 * length cs + 2 \<le> Suc n"
  shows "not_longer cs (object_loop ext (Suc n) pairs cs pos)"
proof (cases cs)
  case Nil
  then show ?thesis by (simp add: not_longer_def)
next
  case (Cons c r)
  have e: "not_longer cs (Some (Inl q))" for q by (simp add: not_longer_def)
  show ?thesis
  proof (cases "c \<noteq> ch CHR 0x22")
    case True
    with Cons e show ?thesis by simp
  next
    case q: False
    show ?thesis
    proof (cases "scanstring pos [] r (pos + 1)")
      case (Inl p)
      with Cons q e show ?thesis by simp
    next
      case (Inr x)
      then obtain key r1 p1 where x: "scanstring pos [] r (pos + 1) = Inr (key, r1, p1)" by (cases x) auto
      have l1: "length r1 < length r" using scanstring_shorter [OF x] .
      obtain r2 p2 where sk2: "skip_ws r1 p1 = (r2, p2)" by (cases "skip_ws r1 p1")
      have l2: "length r2 \<le> length r1" using skip_ws_length [OF sk2] .
      show ?thesis
      proof (cases r2)
        case Nil
        with Cons q x sk2 e show ?thesis by simp
      next
        case r2: (Cons d r3)
        show ?thesis
        proof (cases "d \<noteq> ch CHR '':''")
          case True
          with Cons q x sk2 r2 e show ?thesis by simp
        next
          case col: False
          obtain r4 p4 where sk4: "skip_ws r3 (p2 + 1) = (r4, p4)" by (cases "skip_ws r3 (p2 + 1)")
          have l4: "length r4 < length cs"
            using skip_ws_length [OF sk4] l1 l2 r2 Cons by simp
          have s: "shorter r4 (scan_once ext n r4 p4)" by (rule IHs) (use b l4 in simp)
          show ?thesis
          proof (cases "scan_once ext n r4 p4")
            case None
            with s show ?thesis by (simp add: shorter_def)
          next
            case (Some res)
            show ?thesis
            proof (cases res)
              case (Inl p)
              with Cons q x sk2 r2 col sk4 Some e show ?thesis by simp
            next
              case (Inr y)
              then obtain v r5 p5 where y: "res = Inr (v, r5, p5)" by (cases y) auto
              with s Some have l5: "length r5 < length cs" using l4 by (simp add: shorter_def)
              obtain r6 p6 where sk6: "skip_ws r5 p5 = (r6, p6)" by (cases "skip_ws r5 p5")
              have nxt: "not_longer cs (object_loop ext n (dict_set pairs (KStr key) v) r8 p8)"
                if "length r8 < length cs" for r8 p8
                by (rule not_longer_mono [OF IHo]) (use that b in auto)
              from after_value [where loop = "object_loop ext n (dict_set pairs (KStr key) v)"
                  and closer = "ch CHR ''}''" and v = "VDict (dict_set pairs (KStr key) v)", OF nxt sk6 l5]
              show ?thesis using Cons q x sk2 r2 col sk4 Some y sk6 by (simp add: Let_def)
            qed
          qed
        qed
      qed
    qed
  qed
qed

lemma scan_fuel_enough:
  "(\<forall>cs pos. 2 * length cs + 1 \<le> n \<longrightarrow> shorter cs (scan_once ext n cs pos)) \<and>
   (\<forall>pairs cs pos. 2 * length cs + 2 \<le> n \<longrightarrow> not_longer cs (object_loop ext n pairs cs pos)) \<and>
   (\<forall>acc cs pos. 2 * length cs + 2 \<le> n \<longrightarrow> not_longer cs (array_loop ext n acc cs pos))"
proof (induction n)
  case 0
  show ?case by simp
next
  case (Suc n)
  show ?case
    using scan_once_step [of n ext] object_loop_step [of n ext] array_loop_step [of n ext] Suc
    by blast
qed

section \<open>The pipeline on concrete texts\<close>

text \<open>Equations that evaluate the structural scan, the trimmed window and \<^verbatim>\<open>strip\<close> on a
  given text.\<close>

lemmas scan_eval =
  structural_scan_def scan_init_def scan_step_def STRING_DELIMITERS_def expected_closer_def
  track_error_def add_error_def JsonResults_def JsonFixer_def

lemmas trim_eval =
  trimmed_window_def has_array_before_object_def has_minimum_one_brace_def py_slice_def
  py_find_def py_rfind_def clip_bound_def

lemmas strip_eval = strip_def strip_chars_def isspace_ascii

subsection \<open>A strict-parse error at the end of the text\<close>

text \<open>
  Claim C4 (the strict-parse rejection is never surfaced: the character at the reported
  position is recorded, the tolerant parser is invoked, and only the ``repair failed''
  error can leave \<^verbatim>\<open>_process_chunk\<close>). The code does not keep this: \<^verbatim>\<open>json.loads\<close> reports
  the end of a truncated text as the position of its error, there \<^verbatim>\<open>rough[e.pos]\<close> has no
  character, and the \<^verbatim>\<open>IndexError\<close> of that subscript leaves \<^verbatim>\<open>_process_chunk\<close> from the
  handler, before anything is recorded and before the tolerant parser is called. The
  text \<^verbatim>\<open>{"a":\<close> is such an input: the strict parse fails at position 5, its length.
\<close>

theorem truncated_input_raises_index_error:
  \<open>fst (process_chunk (JsonFixer False) (py ''{"a":''))
     = Inl (IndexError (py ''string index out of range'')) \<and>
   json_loads (trimmed_window (strip (py ''{"a":''))) = Inl (length (py ''{"a":''))\<close>
proof -
  let ?t = \<open>py ''{"a":''\<close>
  have s1: "strip ?t = ?t" by (simp add: strip_eval)
  have s3: "trimmed_window ?t = ?t" by (simp add: trim_eval)
  have s4: "json_loads ?t = Inl 5" by (simp add: strict_eval)
  show ?thesis
    using s1 s3 s4 by (simp add: process_chunk_def Let_def)
qed

subsection \<open>The same text twice\<close>

text \<open>The first call on \<^verbatim>\<open>{"a\<close>: the scan reports the open quote and the open brace, the
  strict parse fails at 1, and the tolerant parser, called through the cache, records
  the quote once more.\<close>

lemma unterminated_key_first_call:
  \<open>load_json (JsonFixer False) (py ''{"a'') =
     (Inr \<lparr>original = py ''{"a'', fixed = py ''{}'',
            errors = [([ch CHR 0x22], [1, 3, 1, 1]), (py ''{'', [0]), (py ''}'', [3])]\<rparr>,
      \<lparr>index = 3, json_str = py ''{"a'', logging = False, logger = [],
        result = Some \<lparr>original = py ''{"a'', fixed = py ''{}'',
            errors = [([ch CHR 0x22], [1, 3, 1, 1]), (py ''{'', [0]), (py ''}'', [3])]\<rparr>,
        cache = [(py ''{"a'', VDict [])], failure_file = None\<rparr>)\<close>
proof -
  let ?t = \<open>py ''{"a''\<close>
  have s1: "strip ?t = ?t" by (simp add: strip_eval)
  have s2: "structural_scan ((JsonFixer False)\<lparr>result := Some (JsonResults ?t ?t)\<rparr>) ?t =
      \<lparr>index = 0, json_str = [], logging = False, logger = [],
        result = Some \<lparr>original = ?t, fixed = ?t,
           errors = [([ch CHR 0x22], [1, 3]), (py ''{'', [0]), (py ''}'', [3])]\<rparr>,
        cache = [], failure_file = None\<rparr>"
    by (simp add: scan_eval)
  have s3: "trimmed_window ?t = ?t" by (simp add: trim_eval)
  have s4: "json_loads ?t = Inl 1" by (simp add: strict_eval)
  have s5: "parse \<lparr>index = 0, json_str = ?t, logging = False, logger = [],
        result = Some \<lparr>original = ?t, fixed = ?t,
           errors = [([ch CHR 0x22], [1, 3, 1]), (py ''{'', [0]), (py ''}'', [3])]\<rparr>,
        cache = [], failure_file = None\<rparr> =
      (Inr (VDict []),
       \<lparr>index = 3, json_str = ?t, logging = False, logger = [],
        result = Some \<lparr>original = ?t, fixed = ?t,
           errors = [([ch CHR 0x22], [1, 3, 1, 1]), (py ''{'', [0]), (py ''}'', [3])]\<rparr>,
        cache = [], failure_file = None\<rparr>)"
    by (simp add: tolerant_eval track_error_def add_error_def)
  show ?thesis
    using s1 s2 s3 s4 s5
    by (simp add: load_json_def process_chunk_def Let_def track_error_def add_error_def
        cached_parse_def set_fixed_def is_container_def)
qed

text \<open>The second call, on the fixer as the first call left it: the cache has the text, the
  tolerant parser does not run and its record is missing.\<close>

lemma unterminated_key_second_call:
  \<open>fst (load_json
      \<lparr>index = 3, json_str = py ''{"a'', logging = False, logger = [],
        result = Some \<lparr>original = py ''{"a'', fixed = py ''{}'',
            errors = [([ch CHR 0x22], [1, 3, 1, 1]), (py ''{'', [0]), (py ''}'', [3])]\<rparr>,
        cache = [(py ''{"a'', VDict [])], failure_file = None\<rparr> (py ''{"a'')) =
     Inr \<lparr>original = py ''{"a'', fixed = py ''{}'',
            errors = [([ch CHR 0x22], [1, 3, 1]), (py ''{'', [0]), (py ''}'', [3])]\<rparr>\<close>
proof -
  let ?t = \<open>py ''{"a''\<close>
  have s1: "strip ?t = ?t" by (simp add: strip_eval)
  have s2: "structural_scan \<lparr>index = 3, json_str = ?t, logging = False, logger = [],
        result = Some (JsonResults ?t ?t), cache = [(?t, VDict [])], failure_file = None\<rparr> ?t =
      \<lparr>index = 3, json_str = ?t, logging = False, logger = [],
        result = Some \<lparr>original = ?t, fixed = ?t,
           errors = [([ch CHR 0x22], [1, 3]), (py ''{'', [0]), (py ''}'', [3])]\<rparr>,
        cache = [(?t, VDict [])], failure_file = None\<rparr>"
    by (simp add: scan_eval)
  have s3: "trimmed_window ?t = ?t" by (simp add: trim_eval)
  have s4: "json_loads ?t = Inl 1" by (simp add: strict_eval)
  show ?thesis
    using s1 s2 s3 s4
    by (simp add: load_json_def process_chunk_def Let_def track_error_def add_error_def
        cached_parse_def set_fixed_def is_container_def)
qed

text \<open>
  Claim C10 (two successive \<^verbatim>\<open>load_json\<close> calls of one fixer with the same text give the
  same \<^verbatim>\<open>fixed\<close> string and the same error map). The code does not keep this: the
  tolerant parser records errors in \<^verbatim>\<open>self.result\<close> while it runs, and a call answered
  by \<^verbatim>\<open>lru_cache\<close> does not run it. For \<^verbatim>\<open>{"a\<close> the first call records the quote at
  1, 3, 1, 1 and the second call at 1, 3, 1 only.
\<close>

theorem repeated_call_loses_an_error:
  \<open>map_sum id errors (fst (load_json (JsonFixer False) (py ''{"a'')))
     = Inr [([ch CHR 0x22], [1, 3, 1, 1]), (py ''{'', [0]), (py ''}'', [3])] \<and>
   map_sum id errors (fst (load_json (snd (load_json (JsonFixer False) (py ''{"a''))) (py ''{"a'')))
     = Inr [([ch CHR 0x22], [1, 3, 1]), (py ''{'', [0]), (py ''}'', [3])]\<close>
  using unterminated_key_first_call unterminated_key_second_call by simp

section \<open>Canonical text is kept\<close>

subsection \<open>The scan keeps the result record\<close>







subsection \<open>A serialization has no blank at either end\<close>












subsection \<open>The repair of canonical text\<close>






end
